theory Spec2Isabelle
  imports Main "HOL-Library.AList" "HOL-Library.Sublist"
begin

section \<open>Content repository: \<open>src/lib/projects.ts\<close>\<close>

subsection \<open>Data\<close>

text \<open>
  The object \<open>data\<close> that \<open>matter(fileContents)\<close> returns is an open JavaScript object:
  whatever keys the frontmatter declares, in insertion order. It is an association list
  of key and string value. \<open>ProjectMetaData\<close> is such an object that also has the key
  \<open>slug\<close>; \<open>Project\<close> pairs it with the body.
\<close>

type_synonym frontmatter = "(string \<times> string) list"

type_synonym ProjectMetaData = "(string \<times> string) list"

record Project =
  metadata :: ProjectMetaData
  content :: string

text \<open>
  Everything the code can throw. \<open>ENOENT\<close>, \<open>EISDIR\<close> and \<open>EACCES\<close> come from
  \<open>fs.readdirSync\<close> and \<open>fs.readFileSync\<close>, \<open>YAMLException\<close> from the frontmatter
  parser, \<open>TypeError\<close> from reading a property of \<open>undefined\<close>.
\<close>

datatype js_error = ENOENT | EISDIR | EACCES | YAMLException | TypeError

text \<open>
  The file system. \<open>rootEntries\<close> is the directory \<open>content/projects\<close>
  (\<open>rootDirectory\<close>): its entries in the order \<open>readdirSync\<close> lists them, or \<open>None\<close>
  when the directory does not exist. \<open>elsewhere\<close> is every other file the process can
  reach: the result of reading the path that \<open>path.join\<close> makes of \<open>rootDirectory\<close> and
  a relative path that does not name an entry of the directory.
\<close>

datatype dirent = File string | Directory | Denied

type_synonym directory = "(string \<times> dirent) list"

record filesystem =
  rootEntries :: "directory option"
  elsewhere :: "string \<Rightarrow> js_error + string"

text \<open>
  \<open>path.join(rootDirectory, name)\<close> normalises the joined path. A name that is one
  path component gives the entry of that name in the directory. A name with a separator
  (the slash, and the backslash where that is one) can give another entry (\<open>./y.mdx\<close>) or a file
  outside the directory (\<open>../posts/x.mdx\<close>); the empty name, \<open>.\<close> and \<open>..\<close> give a
  directory. All of these are left to \<open>elsewhere\<close>.
\<close>

datatype path = InRoot string | Elsewhere string

definition hasSeparator :: "string \<Rightarrow> bool" where
  "hasSeparator name = (CHR ''/'' \<in> set name \<or> CHR 0x5C \<in> set name)"

definition joinRoot :: "string \<Rightarrow> path" where
  "joinRoot name =
     (if hasSeparator name \<or> name = [] \<or> name = ''.'' \<or> name = ''..'' then Elsewhere name
      else InRoot name)"

definition readdirSync :: "filesystem \<Rightarrow> js_error + string list" where
  "readdirSync fs =
     (case rootEntries fs of None \<Rightarrow> Inl ENOENT | Some es \<Rightarrow> Inr (map fst es))"

definition readFileSync :: "filesystem \<Rightarrow> path \<Rightarrow> js_error + string" where
  "readFileSync fs filePath =
     (case filePath of
        Elsewhere name \<Rightarrow> elsewhere fs name
      | InRoot name \<Rightarrow>
          (case rootEntries fs of
             None \<Rightarrow> Inl ENOENT
           | Some es \<Rightarrow>
               (case map_of es name of
                  None \<Rightarrow> Inl ENOENT
                | Some (File fileContents) \<Rightarrow> Inr fileContents
                | Some Directory \<Rightarrow> Inl EISDIR
                | Some Denied \<Rightarrow> Inl EACCES)))"

text \<open>
  The frontmatter parser \<open>matter\<close> is imported from the package \<open>gray-matter\<close> and the
  \<open>Date\<close> constructor belongs to the JavaScript engine. The functions of
  \<open>projects.ts\<close> take both as parameters: \<open>parse\<close> returns the pair \<open>(data, content)\<close>
  or throws, and \<open>tv\<close> gives the time value of \<open>new Date(s)\<close> in milliseconds, \<open>None\<close>
  for an invalid date (whose time value is \<open>NaN\<close>).
\<close>

type_synonym parser = "string \<Rightarrow> js_error + (frontmatter \<times> string)"

type_synonym date_ctor = "string \<Rightarrow> int option"

subsection \<open>\<open>getProjectBySlug\<close>\<close>

text \<open>\<open>{ ...data, slug }\<close>: the key \<open>slug\<close> is set last, so it replaces a \<open>slug\<close> of \<open>data\<close>.\<close>

definition with_slug :: "frontmatter \<Rightarrow> string \<Rightarrow> ProjectMetaData" where
  "with_slug data slug = AList.update ''slug'' slug data"

text \<open>The body of the \<open>try\<close> block.\<close>

definition readProject :: "parser \<Rightarrow> filesystem \<Rightarrow> string \<Rightarrow> js_error + Project" where
  "readProject parse fs slug =
     (case readFileSync fs (joinRoot (slug @ ''.mdx'')) of
        Inl e \<Rightarrow> Inl e
      | Inr fileContents \<Rightarrow>
          (case parse fileContents of
             Inl e \<Rightarrow> Inl e
           | Inr (data, body) \<Rightarrow>
               Inr \<lparr>metadata = with_slug data slug, content = body\<rparr>))"

text \<open>
  \<open>try { ... } catch (error) { return null }\<close>: \<open>Inr None\<close> is the value \<open>null\<close>, and
  \<open>Inl\<close> would be an exception that leaves the function.
\<close>

definition getProjectBySlug :: "parser \<Rightarrow> filesystem \<Rightarrow> string \<Rightarrow> js_error + Project option" where
  "getProjectBySlug parse fs slug =
     (case readProject parse fs slug of
        Inl error \<Rightarrow> Inr None
      | Inr project \<Rightarrow> Inr (Some project))"

subsection \<open>\<open>getProjectMetadata\<close>\<close>

text \<open>\<open>fileName.replace(/\.mdx$/, '')\<close>: without the \<open>m\<close> flag, \<open>$\<close> is the end of the string.\<close>

definition strip_mdx :: "string \<Rightarrow> string" where
  "strip_mdx fileName =
     (if suffix ''.mdx'' fileName then take (length fileName - 4) fileName else fileName)"

definition getProjectMetadata :: "parser \<Rightarrow> filesystem \<Rightarrow> string \<Rightarrow> js_error + ProjectMetaData" where
  "getProjectMetadata parse fs fileName =
     (let slug = strip_mdx fileName in
      case readFileSync fs (joinRoot fileName) of
        Inl e \<Rightarrow> Inl e
      | Inr fileContents \<Rightarrow>
          (case parse fileContents of
             Inl e \<Rightarrow> Inl e
           | Inr (data, _) \<Rightarrow> Inr (with_slug data slug)))"

subsection \<open>\<open>getProjects\<close>\<close>

text \<open>\<open>a.date ?? ''\<close>\<close>

definition date_or_empty :: "ProjectMetaData \<Rightarrow> string" where
  "date_or_empty a = (case map_of a ''date'' of None \<Rightarrow> [] | Some d \<Rightarrow> d)"

text \<open>
  \<open>new Date(a.date ?? '') < new Date(b.date ?? '')\<close> compares the two time values as
  numbers; a comparison with \<open>NaN\<close> is false.
\<close>

definition date_lt :: "date_ctor \<Rightarrow> ProjectMetaData \<Rightarrow> ProjectMetaData \<Rightarrow> bool" where
  "date_lt tv a b =
     (case tv (date_or_empty a) of
        None \<Rightarrow> False
      | Some x \<Rightarrow> (case tv (date_or_empty b) of None \<Rightarrow> False | Some y \<Rightarrow> x < y))"

text \<open>The comparator handed to \<open>sort\<close>.\<close>

definition compareProjects :: "date_ctor \<Rightarrow> ProjectMetaData \<Rightarrow> ProjectMetaData \<Rightarrow> int" where
  "compareProjects tv a b = (if date_lt tv a b then 1 else - 1)"

text \<open>
  \<open>Array.prototype.sort\<close> is the engine's. ECMAScript leaves the order it produces to the
  implementation when the comparator is not consistent, so the model fixes one: binary
  insertion sort after an initial run, which is what the sort of V8 (the engine of
  Node.js, where \<open>getProjects\<close> runs) does on an array shorter than its merge
  threshold. The comparator is always called with the later element first.
\<close>

function binarySearch :: "('a \<Rightarrow> 'a \<Rightarrow> int) \<Rightarrow> 'a \<Rightarrow> 'a list \<Rightarrow> nat \<Rightarrow> nat \<Rightarrow> nat" where
  "binarySearch cmp pivot xs left right =
     (if left < right then
        (let mid = left + (right - left) div 2 in
         if cmp pivot (xs ! mid) < 0 then binarySearch cmp pivot xs left mid
         else binarySearch cmp pivot xs (mid + 1) right)
      else left)"
  by pat_completeness auto
termination
  by (relation "measure (\<lambda>(cmp, pivot, xs, left, right). right - left)") auto

definition insertPivot :: "('a \<Rightarrow> 'a \<Rightarrow> int) \<Rightarrow> 'a \<Rightarrow> 'a list \<Rightarrow> 'a list" where
  "insertPivot cmp pivot xs =
     (let left = binarySearch cmp pivot xs 0 (length xs) in take left xs @ pivot # drop left xs)"

fun binaryInsertionSort :: "('a \<Rightarrow> 'a \<Rightarrow> int) \<Rightarrow> 'a list \<Rightarrow> 'a list \<Rightarrow> 'a list" where
  "binaryInsertionSort cmp done [] = done"
| "binaryInsertionSort cmp done (pivot # rest) =
     binaryInsertionSort cmp (insertPivot cmp pivot done) rest"

text \<open>
  The initial run: it is descending when the second element compares below the first,
  it goes on while the next element compares the same way with the one before it, and a
  descending run is reversed.
\<close>

fun extendRun :: "('a \<Rightarrow> 'a \<Rightarrow> int) \<Rightarrow> bool \<Rightarrow> 'a \<Rightarrow> 'a list \<Rightarrow> 'a list \<times> 'a list" where
  "extendRun cmp isDescending previous [] = ([], [])"
| "extendRun cmp isDescending previous (current # rest) =
     (if (cmp current previous < 0) = isDescending then
        (case extendRun cmp isDescending current rest of (run, rest') \<Rightarrow> (current # run, rest'))
      else ([], current # rest))"

fun countAndMakeRun :: "('a \<Rightarrow> 'a \<Rightarrow> int) \<Rightarrow> 'a list \<Rightarrow> 'a list \<times> 'a list" where
  "countAndMakeRun cmp (low # high # rest) =
     (let isDescending = cmp high low < 0 in
      case extendRun cmp isDescending high rest of
        (run, rest') \<Rightarrow>
          (if isDescending then rev (low # high # run) else low # high # run, rest'))"
| "countAndMakeRun cmp xs = (xs, [])"

definition js_sort :: "('a \<Rightarrow> 'a \<Rightarrow> int) \<Rightarrow> 'a list \<Rightarrow> 'a list" where
  "js_sort cmp xs = (case countAndMakeRun cmp xs of (run, rest) \<Rightarrow> binaryInsertionSort cmp run rest)"

text \<open>
  \<open>files.map(file => getProjectMetadata(file))\<close>: the first file that throws ends the
  whole call.
\<close>

fun map_throwing :: "('a \<Rightarrow> js_error + 'b) \<Rightarrow> 'a list \<Rightarrow> js_error + 'b list" where
  "map_throwing f [] = Inr []"
| "map_throwing f (x # xs) =
     (case f x of
        Inl e \<Rightarrow> Inl e
      | Inr y \<Rightarrow> (case map_throwing f xs of Inl e \<Rightarrow> Inl e | Inr ys \<Rightarrow> Inr (y # ys)))"

text \<open>\<open>projects.slice(0, end)\<close>: a negative end counts from the end of the array.\<close>

definition slice0 :: "'a list \<Rightarrow> int \<Rightarrow> 'a list" where
  "slice0 xs end = take (nat (if end < 0 then int (length xs) + end else end)) xs"

text \<open>
  \<open>limit?: number\<close> is \<open>None\<close> when the argument is left out, and an integer otherwise.
  \<open>if (limit)\<close> takes the branch for a number other than \<open>0\<close>.
\<close>

definition getProjects :: "parser \<Rightarrow> date_ctor \<Rightarrow> filesystem \<Rightarrow> int option \<Rightarrow> js_error + ProjectMetaData list" where
  "getProjects parse tv fs limit =
     (case readdirSync fs of
        Inl e \<Rightarrow> Inl e
      | Inr files \<Rightarrow>
          (case map_throwing (getProjectMetadata parse fs) files of
             Inl e \<Rightarrow> Inl e
           | Inr metas \<Rightarrow>
               (let projects = js_sort (compareProjects tv) metas in
                case limit of
                  None \<Rightarrow> Inr projects
                | Some k \<Rightarrow> if k \<noteq> 0 then Inr (slice0 projects k) else Inr projects)))"

subsection \<open>The date constructor on date-only strings\<close>

text \<open>
  An instance of the parameter \<open>tv\<close> for concrete inputs: the time value of
  \<open>new Date(s)\<close> for \<open>s\<close> in the date-only form \<open>YYYY-MM-DD\<close> of the ECMAScript date
  time string format (UTC midnight of that day, in milliseconds since 1970-01-01), and
  \<open>NaN\<close> for every other string, the empty string among them.
\<close>

definition digit :: "char \<Rightarrow> nat option" where
  "digit c = (let n = (of_char c :: nat) in if 48 \<le> n \<and> n \<le> 57 then Some (n - 48) else None)"

fun number :: "nat \<Rightarrow> string \<Rightarrow> nat option" where
  "number acc [] = Some acc"
| "number acc (c # cs) = (case digit c of None \<Rightarrow> None | Some d \<Rightarrow> number (10 * acc + d) cs)"

definition isLeapYear :: "nat \<Rightarrow> bool" where
  "isLeapYear y = (y mod 4 = 0 \<and> (y mod 100 = 0) = (y mod 400 = 0))"

definition daysInMonth :: "nat \<Rightarrow> nat \<Rightarrow> nat" where
  "daysInMonth y m =
     (if m = 2 then (if isLeapYear y then 29 else 28)
      else if m = 4 \<or> m = 6 \<or> m = 9 \<or> m = 11 then 30 else 31)"

text \<open>Days from 1970-01-01 to the given day of the proleptic Gregorian calendar.\<close>

definition dayNumber :: "nat \<Rightarrow> nat \<Rightarrow> nat \<Rightarrow> int" where
  "dayNumber y m d =
     (let y' = (if m \<le> 2 then int y - 1 else int y);
          era = y' div 400;
          yoe = y' - era * 400;
          doy = (153 * (if 2 < m then int m - 3 else int m + 9) + 2) div 5 + int d - 1;
          doe = yoe * 365 + yoe div 4 - yoe div 100 + doy
      in era * 146097 + doe - 719468)"

definition isoDate :: date_ctor where
  "isoDate s =
     (if length s = 10 \<and> s ! 4 = CHR ''-'' \<and> s ! 7 = CHR ''-'' then
        (case number 0 (take 4 s) of
           None \<Rightarrow> None
         | Some y \<Rightarrow>
             (case number 0 (take 2 (drop 5 s)) of
                None \<Rightarrow> None
              | Some m \<Rightarrow>
                  (case number 0 (drop 8 s) of
                     None \<Rightarrow> None
                   | Some d \<Rightarrow>
                       if 1 \<le> m \<and> m \<le> 12 \<and> 1 \<le> d \<and> d \<le> daysInMonth y m
                       then Some (86400000 * dayNumber y m d) else None)))
      else None)"

subsection \<open>The frontmatter parser of the specification\<close>

text \<open>
  Modelled from the spec: the frontmatter parser \<open>matter\<close> of the package
  \<open>gray-matter\<close>, which \<open>projects.ts\<close> imports and whose code is not among the sources.
  Sections 4.2 and 6 of the specification: the block opens and closes with a line
  containing exactly \<open>---\<close>; between the delimiters there is one \<open>key: value\<close> pair per
  line, the value a quoted or unquoted scalar; everything after the closing delimiter is
  the body; without a leading delimited block, and for a malformed block, the result is
  an empty metadata set and the entire text as body, never an error.
\<close>

definition newline :: char where
  "newline = CHR 0x0A"

fun split_lines :: "string \<Rightarrow> string list" where
  "split_lines [] = [[]]"
| "split_lines (c # cs) =
     (if c = newline then [] # split_lines cs
      else (case split_lines cs of [] \<Rightarrow> [[c]] | l # ls \<Rightarrow> (c # l) # ls))"

fun join_lines :: "string list \<Rightarrow> string" where
  "join_lines [] = []"
| "join_lines [l] = l"
| "join_lines (l # ls) = l @ newline # join_lines ls"

definition isQuote :: "char \<Rightarrow> bool" where
  "isQuote c = (c = CHR 0x27 \<or> c = CHR 0x22)"

definition unquote :: "string \<Rightarrow> string" where
  "unquote v =
     (if 2 \<le> length v \<and> isQuote (hd v) \<and> last v = hd v then butlast (tl v) else v)"

definition parse_pair :: "string \<Rightarrow> (string \<times> string) option" where
  "parse_pair line =
     (case dropWhile (\<lambda>c. c \<noteq> CHR '':'') line of
        [] \<Rightarrow> None
      | colon # rest \<Rightarrow>
          (let key = takeWhile (\<lambda>c. c \<noteq> CHR '':'') line in
           if key = [] then None
           else Some (key, unquote (dropWhile (\<lambda>c. c = CHR '' '') rest))))"

fun parse_pairs :: "string list \<Rightarrow> frontmatter option" where
  "parse_pairs [] = Some []"
| "parse_pairs (line # lines) =
     (case parse_pair line of
        None \<Rightarrow> None
      | Some kv \<Rightarrow> (case parse_pairs lines of None \<Rightarrow> None | Some kvs \<Rightarrow> Some (kv # kvs)))"

definition matter :: parser where
  "matter rawText =
     (case split_lines rawText of
        [] \<Rightarrow> Inr ([], rawText)
      | first # rest \<Rightarrow>
          if first = ''---'' then
            (case dropWhile (\<lambda>l. l \<noteq> ''---'') rest of
               [] \<Rightarrow> Inr ([], rawText)
             | closing # body \<Rightarrow>
                 (case parse_pairs (takeWhile (\<lambda>l. l \<noteq> ''---'') rest) of
                    None \<Rightarrow> Inr ([], rawText)
                  | Some data \<Rightarrow> Inr (data, join_lines body)))
          else Inr ([], rawText))"

section \<open>Quiz component: \<open>src/components/quiz.tsx\<close>\<close>

subsection \<open>State\<close>

record QuizQuestion =
  question :: string
  options :: "string list"
  correctAnswer :: int

text \<open>An element of \<open>userAnswers\<close>, of type \<open>number | null\<close>.\<close>

datatype answer = Null | Selected int

text \<open>The three \<open>useState\<close> cells of the component.\<close>

record quiz_state =
  currentQuestion :: nat
  userAnswers :: "answer list"
  isQuizCompleted :: bool

text \<open>
  The initial values: \<open>0\<close>, \<open>Array(questions.length).fill(null)\<close> and \<open>false\<close>. Nothing
  of \<open>questions\<close> is inspected but its length.
\<close>

definition initial :: "QuizQuestion list \<Rightarrow> quiz_state" where
  "initial questions =
     \<lparr>currentQuestion = 0, userAnswers = replicate (length questions) Null,
      isQuizCompleted = False\<rparr>"

text \<open>Reading an array at an index: \<open>undefined\<close> (\<open>None\<close>) out of range.\<close>

definition lookup :: "'a list \<Rightarrow> nat \<Rightarrow> 'a option" where
  "lookup xs i = (if i < length xs then Some (xs ! i) else None)"

definition selectedAnswer :: "quiz_state \<Rightarrow> answer option" where
  "selectedAnswer st = lookup (userAnswers st) (currentQuestion st)"

text \<open>\<open>selectedAnswer !== null\<close>, which holds of \<open>undefined\<close> too.\<close>

definition showResult :: "quiz_state \<Rightarrow> bool" where
  "showResult st = (selectedAnswer st \<noteq> Some Null)"

definition isLastQuestion :: "QuizQuestion list \<Rightarrow> quiz_state \<Rightarrow> bool" where
  "isLastQuestion questions st = (int (currentQuestion st) = int (length questions) - 1)"

subsection \<open>Handlers\<close>

text \<open>
  \<open>handleAnswer\<close>: past the guard, \<open>userAnswers[currentQuestion]\<close> is \<open>null\<close>, so the
  index written is in range.
\<close>

definition handleAnswer :: "quiz_state \<Rightarrow> int \<Rightarrow> quiz_state" where
  "handleAnswer st index =
     (if showResult st then st
      else st\<lparr>userAnswers := (userAnswers st)[currentQuestion st := Selected index]\<rparr>)"

definition nextQuestion :: "QuizQuestion list \<Rightarrow> quiz_state \<Rightarrow> quiz_state" where
  "nextQuestion questions st =
     (if isLastQuestion questions st then st\<lparr>isQuizCompleted := True\<rparr>
      else st\<lparr>currentQuestion := currentQuestion st + 1\<rparr>)"

subsection \<open>Rendering\<close>

text \<open>
  The \<open>reduce\<close> over \<open>userAnswers\<close>: \<open>questions[index].correctAnswer\<close> throws when
  \<open>questions\<close> has no element at \<open>index\<close>.
\<close>

fun reduce_score :: "QuizQuestion list \<Rightarrow> nat \<Rightarrow> nat \<Rightarrow> answer list \<Rightarrow> js_error + nat" where
  "reduce_score questions tot index [] = Inr tot"
| "reduce_score questions tot index (answer # answers) =
     (case lookup questions index of
        None \<Rightarrow> Inl TypeError
      | Some q \<Rightarrow>
          reduce_score questions
            (if answer = Selected (correctAnswer q) then tot + 1 else tot)
            (index + 1) answers)"

definition score :: "QuizQuestion list \<Rightarrow> answer list \<Rightarrow> js_error + nat" where
  "score questions answers = reduce_score questions 0 0 answers"

text \<open>The props of one \<open>AnswerButton\<close>; its \<open>onClick\<close> is \<open>handleAnswer(index)\<close>.\<close>

record AnswerButton =
  option :: string
  index :: nat
  isSelected :: bool
  isCorrect :: "bool option"
  disabled :: bool

text \<open>
  What the component returns: the completed card with the score and the number of
  questions; or the card of the current question with its buttons and, when
  \<open>showResult\<close> holds, the feedback line and the label of the button that calls
  \<open>nextQuestion\<close>.
\<close>

datatype view =
  Completed nat nat
| QuestionCard string "AnswerButton list" "(string \<times> string) option"

definition answerButtons :: "QuizQuestion \<Rightarrow> quiz_state \<Rightarrow> AnswerButton list" where
  "answerButtons currentQuestionData st =
     map (\<lambda>(i, opt).
            \<lparr>option = opt, index = i,
             isSelected = (selectedAnswer st = Some (Selected (int i))),
             isCorrect = (if showResult st then Some (int i = correctAnswer currentQuestionData)
                          else None),
             disabled = showResult st\<rparr>)
         (enumerate 0 (options currentQuestionData))"

definition resultPanel :: "QuizQuestion list \<Rightarrow> QuizQuestion \<Rightarrow> quiz_state \<Rightarrow> (string \<times> string) option" where
  "resultPanel questions currentQuestionData st =
     (if showResult st then
        Some (if selectedAnswer st = Some (Selected (correctAnswer currentQuestionData))
              then ''Correct!'' else ''Incorrect. Try again!'',
              if isLastQuestion questions st then ''Finish Quiz'' else ''Next Question'')
      else None)"

text \<open>
  One render of \<open>Quiz\<close> in a given state. \<open>currentQuestionData.question\<close> throws when
  \<open>questions[currentQuestion]\<close> is \<open>undefined\<close>.
\<close>

definition Quiz :: "QuizQuestion list \<Rightarrow> quiz_state \<Rightarrow> js_error + view" where
  "Quiz questions st =
     (if isQuizCompleted st then
        (case score questions (userAnswers st) of
           Inl e \<Rightarrow> Inl e
         | Inr s \<Rightarrow> Inr (Completed s (length questions)))
      else
        (case lookup questions (currentQuestion st) of
           None \<Rightarrow> Inl TypeError
         | Some currentQuestionData \<Rightarrow>
             Inr (QuestionCard (question currentQuestionData)
                    (answerButtons currentQuestionData st)
                    (resultPanel questions currentQuestionData st))))"

text \<open>Mounting the component: the initial state and its first render.\<close>

definition mount :: "QuizQuestion list \<Rightarrow> js_error + quiz_state \<times> view" where
  "mount questions =
     (case Quiz questions (initial questions) of
        Inl e \<Rightarrow> Inl e
      | Inr v \<Rightarrow> Inr (initial questions, v))"

text \<open>
  What the user can do with a rendered quiz: click the \<open>i\<close>-th answer button or the
  button of the result panel. A button that is not rendered or is disabled calls nothing.
\<close>

datatype event = ClickAnswer nat | ClickNext

definition click :: "QuizQuestion list \<Rightarrow> quiz_state \<Rightarrow> event \<Rightarrow> quiz_state" where
  "click questions st ev =
     (case Quiz questions st of
        Inl e \<Rightarrow> st
      | Inr (Completed s n) \<Rightarrow> st
      | Inr (QuestionCard text buttons panel) \<Rightarrow>
          (case ev of
             ClickAnswer i \<Rightarrow>
               (case lookup buttons i of
                  None \<Rightarrow> st
                | Some b \<Rightarrow> if disabled b then st else handleAnswer st (int (index b)))
           | ClickNext \<Rightarrow>
               (case panel of None \<Rightarrow> st | Some labels \<Rightarrow> nextQuestion questions st)))"

section \<open>Properties stated with the specification's words\<close>

text \<open>
  The order of the sort invariant: \<open>date(A) >= date(B)\<close>, where a date that is absent or
  does not parse is earlier than every date that is present.
\<close>

definition date_ge_missing_min :: "date_ctor \<Rightarrow> ProjectMetaData \<Rightarrow> ProjectMetaData \<Rightarrow> bool" where
  "date_ge_missing_min tv a b =
     (case tv (date_or_empty b) of
        None \<Rightarrow> True
      | Some y \<Rightarrow> (case tv (date_or_empty a) of None \<Rightarrow> False | Some x \<Rightarrow> y \<le> x))"

text \<open>
  A document as text: the opening delimiter, one \<open>key: value\<close> line for each field, the
  closing delimiter and the body. The mark \<open>q\<close> is put on both sides of every value: it
  is empty for unquoted values, or a single or a double quote.
\<close>

definition show_pair :: "string \<Rightarrow> string \<times> string \<Rightarrow> string" where
  "show_pair q kv = fst kv @ '': '' @ q @ snd kv @ q"

definition document :: "string \<Rightarrow> frontmatter \<Rightarrow> string \<Rightarrow> string" where
  "document q kvs body = join_lines (''---'' # map (show_pair q) kvs @ [''---'', body])"

text \<open>
  A key is not empty and has no colon; key and value have no line break; a value written
  without quotes does not start with a space and does not itself read as a quoted scalar.
\<close>

definition quote_mark :: "string \<Rightarrow> bool" where
  "quote_mark q = (q = [] \<or> q = [CHR 0x27] \<or> q = [CHR 0x22])"

definition scalar_pair :: "string \<Rightarrow> string \<times> string \<Rightarrow> bool" where
  "scalar_pair q kv =
     (fst kv \<noteq> [] \<and> CHR '':'' \<notin> set (fst kv) \<and> newline \<notin> set (fst kv) \<and>
      newline \<notin> set (snd kv) \<and>
      (if q = [] then unquote (snd kv) = snd kv \<and> take 1 (snd kv) \<noteq> '' '' else True))"

text \<open>The derived identifiers of the documents of the collection.\<close>

definition identifiers :: "filesystem \<Rightarrow> string list" where
  "identifiers fs = (case readdirSync fs of Inl e \<Rightarrow> [] | Inr files \<Rightarrow> map strip_mdx files)"

section \<open>Example inputs\<close>

text \<open>Nothing but the directory exists.\<close>

definition nothing_elsewhere :: "string \<Rightarrow> js_error + string" where
  "nothing_elsewhere name = Inl ENOENT"

text \<open>A directory of three documents; the first and the last have no date.\<close>

definition undated_directory :: filesystem where
  "undated_directory =
     \<lparr>rootEntries =
        Some [(''a.mdx'', File (document [CHR 0x27] [(''title'', ''A'')] ''About A'')),
              (''b.mdx'', File (document [CHR 0x27] [(''title'', ''B''), (''date'', ''2024-01-01'')] ''About B'')),
              (''c.mdx'', File ''No frontmatter here'')],
      elsewhere = nothing_elsewhere\<rparr>"

text \<open>A directory whose documents all have a date; the last one declares a slug of its own.\<close>

definition dated_directory :: filesystem where
  "dated_directory =
     \<lparr>rootEntries =
        Some [(''x.mdx'', File (document [CHR 0x27] [(''title'', ''X''), (''date'', ''2023-01-12'')] ''About X'')),
              (''y.mdx'', File (document [CHR 0x27] [(''title'', ''Y''), (''date'', ''2024-01-01'')] ''About Y'')),
              (''z.mdx'', File (document [CHR 0x27] [(''slug'', ''other''), (''date'', ''2023-06-30'')] ''About Z''))],
      elsewhere = nothing_elsewhere\<rparr>"

text \<open>A directory whose only entry cannot be read.\<close>

definition denied_directory :: filesystem where
  "denied_directory = \<lparr>rootEntries = Some [(''a.mdx'', Denied)], elsewhere = nothing_elsewhere\<rparr>"

text \<open>A directory whose only file has a name that does not end in \<open>.mdx\<close>.\<close>

definition notes_directory :: filesystem where
  "notes_directory =
     \<lparr>rootEntries = Some [(''notes.txt'', File ''Some notes'')], elsewhere = nothing_elsewhere\<rparr>"

text \<open>An empty directory, and no directory.\<close>

definition empty_directory :: filesystem where
  "empty_directory = \<lparr>rootEntries = Some [], elsewhere = nothing_elsewhere\<rparr>"

definition no_directory :: filesystem where
  "no_directory = \<lparr>rootEntries = None, elsewhere = nothing_elsewhere\<rparr>"

text \<open>A parser that throws on every text.\<close>

definition rejecting_parser :: parser where
  "rejecting_parser rawText = Inl YAMLException"

text \<open>The quiz of the scenario: two questions, four options each, correct options 0 and 2.\<close>

definition scenario_quiz :: "QuizQuestion list" where
  "scenario_quiz =
     [\<lparr>question = ''Q1'', options = [''a'', ''b'', ''c'', ''d''], correctAnswer = 0\<rparr>,
      \<lparr>question = ''Q2'', options = [''e'', ''f'', ''g'', ''h''], correctAnswer = 2\<rparr>]"

text \<open>A quiz whose only question has no option and a correct index out of range.\<close>

definition malformed_quiz :: "QuizQuestion list" where
  "malformed_quiz = [\<lparr>question = ''Q'', options = [], correctAnswer = 7\<rparr>]"

section \<open>The engine's sort\<close>

declare binarySearch.simps [simp del]

lemma binarySearch_bounds:
  "left \<le> right \<Longrightarrow>
     left \<le> binarySearch cmp pivot xs left right \<and> binarySearch cmp pivot xs left right \<le> right"
proof (induction cmp pivot xs left right rule: binarySearch.induct)
  case (1 cmp pivot xs left right)
  show ?case
  proof (cases "left < right")
    case False
    with "1.prems" show ?thesis by (simp add: binarySearch.simps)
  next
    case True
    define mid where "mid = left + (right - left) div 2"
    have mid: "left \<le> mid" "mid < right" using True by (auto simp: mid_def)
    show ?thesis
    proof (cases "cmp pivot (xs ! mid) < 0")
      case neg: True
      have "left \<le> binarySearch cmp pivot xs left mid \<and> binarySearch cmp pivot xs left mid \<le> mid"
        using "1.IH"(1) [OF True mid_def neg] mid by simp
      moreover have "binarySearch cmp pivot xs left right = binarySearch cmp pivot xs left mid"
        using True neg by (subst binarySearch.simps) (simp add: mid_def Let_def)
      ultimately show ?thesis using mid by simp
    next
      case nonneg: False
      have "mid + 1 \<le> binarySearch cmp pivot xs (mid + 1) right \<and> binarySearch cmp pivot xs (mid + 1) right \<le> right"
        using "1.IH"(2) [OF True mid_def nonneg] mid by simp
      moreover have "binarySearch cmp pivot xs left right = binarySearch cmp pivot xs (mid + 1) right"
        using True nonneg by (subst binarySearch.simps) (simp add: mid_def Let_def)
      ultimately show ?thesis using mid by simp
    qed
  qed
qed

lemma binarySearch_partition:
  fixes k :: "'a \<Rightarrow> 'k::linorder"
  assumes "sorted_wrt (\<lambda>a b. k b \<le> k a) xs"
    and "\<forall>e\<in>set xs. (cmp pivot e < 0) = (k e \<le> k pivot)"
    and "left \<le> right" and "right \<le> length xs"
    and "\<forall>i<left. k pivot < k (xs ! i)"
    and "\<forall>i. right \<le> i \<and> i < length xs \<longrightarrow> k (xs ! i) \<le> k pivot"
  shows "(\<forall>i<binarySearch cmp pivot xs left right. k pivot < k (xs ! i)) \<and>
         (\<forall>i. binarySearch cmp pivot xs left right \<le> i \<and> i < length xs \<longrightarrow> k (xs ! i) \<le> k pivot)"
  using assms
proof (induction cmp pivot xs left right rule: binarySearch.induct)
  case (1 cmp pivot xs left right)
  show ?case
  proof (cases "left < right")
    case False
    then have "binarySearch cmp pivot xs left right = left" by (simp add: binarySearch.simps)
    moreover have "left = right" using False "1.prems"(3) by simp
    ultimately show ?thesis using "1.prems"(5,6) by simp
  next
    case True
    define mid where "mid = left + (right - left) div 2"
    have mid: "left \<le> mid" "mid < right" using True by (auto simp: mid_def)
    then have midlen: "mid < length xs" using "1.prems"(4) by simp
    have desc: "\<And>i j. i \<le> j \<Longrightarrow> j < length xs \<Longrightarrow> k (xs ! j) \<le> k (xs ! i)"
    proof -
      fix i j assume "i \<le> j" "j < length xs"
      then show "k (xs ! j) \<le> k (xs ! i)"
        using "1.prems"(1) by (cases "i = j") (auto simp: sorted_wrt_iff_nth_less)
    qed
    show ?thesis
    proof (cases "cmp pivot (xs ! mid) < 0")
      case neg: True
      then have km: "k (xs ! mid) \<le> k pivot" using "1.prems"(2) midlen by auto
      have upper: "\<forall>i. mid \<le> i \<and> i < length xs \<longrightarrow> k (xs ! i) \<le> k pivot"
        using desc km by (meson order_trans)
      have eq: "binarySearch cmp pivot xs left right = binarySearch cmp pivot xs left mid"
        using True neg by (subst binarySearch.simps) (simp add: mid_def Let_def)
      show ?thesis unfolding eq
        using "1.IH"(1) [OF True mid_def neg "1.prems"(1) "1.prems"(2) mid(1) _ "1.prems"(5) upper] midlen
        by simp
    next
      case nonneg: False
      then have km: "k pivot < k (xs ! mid)" using "1.prems"(2) midlen by auto
      have lower: "\<forall>i<mid + 1. k pivot < k (xs ! i)"
      proof (intro allI impI)
        fix i assume "i < mid + 1"
        then have "k (xs ! mid) \<le> k (xs ! i)" using desc [of i mid] midlen by simp
        with km show "k pivot < k (xs ! i)" by simp
      qed
      have eq: "binarySearch cmp pivot xs left right = binarySearch cmp pivot xs (mid + 1) right"
        using True nonneg by (subst binarySearch.simps) (simp add: mid_def Let_def)
      show ?thesis unfolding eq
        using "1.IH"(2) [OF True mid_def nonneg "1.prems"(1) "1.prems"(2) _ "1.prems"(4) lower "1.prems"(6)] mid
        by simp
    qed
  qed
qed


lemma length_insertPivot [simp]: "length (insertPivot cmp pivot xs) = Suc (length xs)"
  using binarySearch_bounds [of 0 "length xs" cmp pivot xs]
  by (simp add: insertPivot_def Let_def)

lemma set_insertPivot [simp]: "set (insertPivot cmp pivot xs) = insert pivot (set xs)"
proof -
  define p where "p = binarySearch cmp pivot xs 0 (length xs)"
  have "set (take p xs) \<union> set (drop p xs) = set xs"
    by (metis append_take_drop_id set_append)
  then show ?thesis by (simp add: insertPivot_def Let_def p_def [symmetric])
qed

lemma sorted_insertPivot:
  fixes k :: "'a \<Rightarrow> 'k::linorder"
  assumes sorted: "sorted_wrt (\<lambda>a b. k b \<le> k a) xs"
    and agree: "\<forall>e\<in>set xs. (cmp pivot e < 0) = (k e \<le> k pivot)"
  shows "sorted_wrt (\<lambda>a b. k b \<le> k a) (insertPivot cmp pivot xs)"
proof -
  define p where "p = binarySearch cmp pivot xs 0 (length xs)"
  have low: "\<forall>i<0. k pivot < k (xs ! i)" by simp
  have high: "\<forall>i. length xs \<le> i \<and> i < length xs \<longrightarrow> k (xs ! i) \<le> k pivot" by auto
  have part: "(\<forall>i<p. k pivot < k (xs ! i)) \<and> (\<forall>i. p \<le> i \<and> i < length xs \<longrightarrow> k (xs ! i) \<le> k pivot)"
    unfolding p_def
    by (rule binarySearch_partition [where k = k and cmp = cmp and pivot = pivot and xs = xs
          and left = 0 and right = "length xs", OF sorted agree _ _ low high]) simp_all
  have p_le: "p \<le> length xs"
    unfolding p_def using binarySearch_bounds [of 0 "length xs" cmp pivot xs] by simp
  have before: "\<forall>x\<in>set (take p xs). k pivot \<le> k x"
  proof
    fix x assume "x \<in> set (take p xs)"
    then obtain i where "i < p" "x = xs ! i"
      using p_le by (auto simp: in_set_conv_nth)
    with part show "k pivot \<le> k x" by (simp add: less_imp_le)
  qed
  have after: "\<forall>y\<in>set (drop p xs). k y \<le> k pivot"
  proof
    fix y assume "y \<in> set (drop p xs)"
    then obtain j where "j < length xs - p" "y = xs ! (p + j)"
      by (auto simp: in_set_conv_nth)
    with part show "k y \<le> k pivot" by simp
  qed
  have cross: "\<forall>x\<in>set (take p xs). \<forall>y\<in>set (pivot # drop p xs). k y \<le> k x"
  proof (intro ballI)
    fix x y assume x: "x \<in> set (take p xs)" and y: "y \<in> set (pivot # drop p xs)"
    have "k y \<le> k pivot" using y after by auto
    moreover have "k pivot \<le> k x" using x before by simp
    ultimately show "k y \<le> k x" by (rule order_trans)
  qed
  have "sorted_wrt (\<lambda>a b. k b \<le> k a) (take p xs)"
    using sorted by (rule sorted_wrt_take)
  moreover have "sorted_wrt (\<lambda>a b. k b \<le> k a) (pivot # drop p xs)"
    using sorted_wrt_drop [OF sorted, of p] after by simp
  ultimately have "sorted_wrt (\<lambda>a b. k b \<le> k a) (take p xs @ pivot # drop p xs)"
    using cross by (simp only: sorted_wrt_append)
  then show ?thesis by (simp add: insertPivot_def Let_def p_def)
qed

lemma length_binaryInsertionSort [simp]:
  "length (binaryInsertionSort cmp done rest) = length done + length rest"
  by (induction rest arbitrary: "done") simp_all

lemma set_binaryInsertionSort [simp]:
  "set (binaryInsertionSort cmp done rest) = set done \<union> set rest"
  by (induction rest arbitrary: "done") auto

lemma sorted_binaryInsertionSort:
  fixes k :: "'a \<Rightarrow> 'k::linorder"
  assumes "sorted_wrt (\<lambda>a b. k b \<le> k a) done"
    and "\<forall>a\<in>set done \<union> set rest. \<forall>b\<in>set done \<union> set rest. (cmp a b < 0) = (k b \<le> k a)"
  shows "sorted_wrt (\<lambda>a b. k b \<le> k a) (binaryInsertionSort cmp done rest)"
  using assms
proof (induction rest arbitrary: "done")
  case Nil
  then show ?case by simp
next
  case (Cons pivot rest)
  have "sorted_wrt (\<lambda>a b. k b \<le> k a) (insertPivot cmp pivot done)"
    using Cons.prems by (intro sorted_insertPivot) auto
  moreover have "\<forall>a\<in>set (insertPivot cmp pivot done) \<union> set rest.
      \<forall>b\<in>set (insertPivot cmp pivot done) \<union> set rest. (cmp a b < 0) = (k b \<le> k a)"
    using Cons.prems(2) by auto
  ultimately show ?case using Cons.IH by simp
qed

lemma extendRun_append: "extendRun cmp d previous xs = (run, rest) \<Longrightarrow> xs = run @ rest"
  by (induction xs arbitrary: previous run rest) (auto split: if_splits prod.splits)

lemma extendRun_descending:
  fixes k :: "'a \<Rightarrow> 'k::linorder"
  assumes "extendRun cmp True previous xs = (run, rest)"
    and "\<forall>a\<in>insert previous (set xs). \<forall>b\<in>insert previous (set xs). (cmp a b < 0) = (k b \<le> k a)"
  shows "sorted_wrt (\<lambda>a b. k a \<le> k b) (previous # run)"
  using assms
proof (induction xs arbitrary: previous run rest)
  case Nil
  then show ?case by simp
next
  case (Cons current xs)
  show ?case
  proof (cases "cmp current previous < 0")
    case False
    with Cons.prems(1) show ?thesis by simp
  next
    case True
    then obtain run' where run': "extendRun cmp True current xs = (run', rest)" "run = current # run'"
      using Cons.prems(1) by (auto split: prod.splits)
    have le: "k previous \<le> k current" using True Cons.prems(2) by simp
    have "sorted_wrt (\<lambda>a b. k a \<le> k b) (current # run')"
      using Cons.IH [OF run'(1)] Cons.prems(2) by simp
    then show ?thesis using le run'(2) by (auto intro: order_trans)
  qed
qed

lemma extendRun_ascending:
  fixes k :: "'a \<Rightarrow> 'k::linorder"
  assumes "extendRun cmp False previous xs = (run, rest)"
    and "\<forall>a\<in>insert previous (set xs). \<forall>b\<in>insert previous (set xs). (cmp a b < 0) = (k b \<le> k a)"
  shows "sorted_wrt (\<lambda>a b. k b \<le> k a) (previous # run)"
  using assms
proof (induction xs arbitrary: previous run rest)
  case Nil
  then show ?case by simp
next
  case (Cons current xs)
  show ?case
  proof (cases "cmp current previous < 0")
    case True
    with Cons.prems(1) show ?thesis by simp
  next
    case False
    then obtain run' where run': "extendRun cmp False current xs = (run', rest)" "run = current # run'"
      using Cons.prems(1) by (auto split: prod.splits)
    have le: "k current \<le> k previous" using False Cons.prems(2) by auto
    have "sorted_wrt (\<lambda>a b. k b \<le> k a) (current # run')"
      using Cons.IH [OF run'(1)] Cons.prems(2) by simp
    then show ?thesis using le run'(2) by (auto intro: order_trans)
  qed
qed

lemma countAndMakeRun_set:
  "countAndMakeRun cmp xs = (run, rest) \<Longrightarrow> set run \<union> set rest = set xs \<and> length run + length rest = length xs"
proof (induction cmp xs rule: countAndMakeRun.induct)
  case (1 cmp low high rest0)
  then show ?case
    by (auto simp: Let_def split: prod.splits if_splits dest!: extendRun_append)
qed auto

lemma countAndMakeRun_sorted:
  fixes k :: "'a \<Rightarrow> 'k::linorder"
  assumes "countAndMakeRun cmp xs = (run, rest)"
    and "\<forall>a\<in>set xs. \<forall>b\<in>set xs. (cmp a b < 0) = (k b \<le> k a)"
  shows "sorted_wrt (\<lambda>a b. k b \<le> k a) run"
  using assms
proof (induction cmp xs rule: countAndMakeRun.induct)
  case (1 cmp low high rest0)
  obtain r where r: "extendRun cmp (cmp high low < 0) high rest0 = (r, rest)"
    using "1.prems"(1) by (auto simp: Let_def split: prod.splits)
  have agree: "\<forall>a\<in>insert high (set rest0). \<forall>b\<in>insert high (set rest0). (cmp a b < 0) = (k b \<le> k a)"
    using "1.prems"(2) by simp
  show ?case
  proof (cases "cmp high low < 0")
    case True
    then have run: "run = rev (low # high # r)" using "1.prems"(1) r by (simp add: Let_def)
    have "sorted_wrt (\<lambda>a b. k a \<le> k b) (high # r)"
      using extendRun_descending [OF _ agree] r True by simp
    moreover have "k low \<le> k high" using True "1.prems"(2) by simp
    ultimately have "sorted_wrt (\<lambda>a b. k a \<le> k b) (low # high # r)"
      by (auto intro: order_trans)
    then show ?thesis unfolding run by (simp only: sorted_wrt_rev)
  next
    case False
    then have run: "run = low # high # r" using "1.prems"(1) r by (simp add: Let_def)
    have "sorted_wrt (\<lambda>a b. k b \<le> k a) (high # r)"
      using extendRun_ascending [OF _ agree] r False by simp
    moreover have "k high \<le> k low" using False "1.prems"(2) by auto
    ultimately show ?thesis unfolding run by (auto intro: order_trans)
  qed
qed auto

lemma length_js_sort [simp]: "length (js_sort cmp xs) = length xs"
proof -
  obtain run rest where rr: "countAndMakeRun cmp xs = (run, rest)" by (cases "countAndMakeRun cmp xs")
  then show ?thesis using countAndMakeRun_set [OF rr] by (simp add: js_sort_def)
qed

lemma set_js_sort [simp]: "set (js_sort cmp xs) = set xs"
proof -
  obtain run rest where rr: "countAndMakeRun cmp xs = (run, rest)" by (cases "countAndMakeRun cmp xs")
  then show ?thesis using countAndMakeRun_set [OF rr] by (simp add: js_sort_def)
qed

lemma sorted_js_sort:
  fixes k :: "'a \<Rightarrow> 'k::linorder"
  assumes "\<forall>a\<in>set xs. \<forall>b\<in>set xs. (cmp a b < 0) = (k b \<le> k a)"
  shows "sorted_wrt (\<lambda>a b. k b \<le> k a) (js_sort cmp xs)"
proof -
  obtain run rest where rr: "countAndMakeRun cmp xs = (run, rest)" by (cases "countAndMakeRun cmp xs")
  have sets: "set run \<union> set rest = set xs" using countAndMakeRun_set [OF rr] by simp
  have "sorted_wrt (\<lambda>a b. k b \<le> k a) (binaryInsertionSort cmp run rest)"
    using countAndMakeRun_sorted [OF rr assms] assms sets
    by (intro sorted_binaryInsertionSort) auto
  then show ?thesis by (simp add: js_sort_def rr)
qed

section \<open>Lookup by slug\<close>

lemma strip_mdx_append [simp]: "strip_mdx (base @ ''.mdx'') = base"
  by (simp add: strip_mdx_def suffix_def)

lemma map_of_with_slug [simp]: "map_of (with_slug data slug) ''slug'' = Some slug"
  by (simp add: with_slug_def update_conv')

lemma map_of_with_slug_other:
  "key \<noteq> ''slug'' \<Longrightarrow> map_of (with_slug data slug) key = map_of data key"
  by (simp add: with_slug_def update_conv')

lemma map_throwing_length: "map_throwing f xs = Inr ys \<Longrightarrow> length ys = length xs"
  by (induction xs arbitrary: ys) (auto split: sum.splits)

lemma joinRoot_slug:
  assumes "\<not> hasSeparator slug"
  shows "joinRoot (slug @ ''.mdx'') = InRoot (slug @ ''.mdx'')"
proof -
  have "\<not> hasSeparator (slug @ ''.mdx'')"
    using assms by (simp add: hasSeparator_def)
  moreover have "length (slug @ ''.mdx'') \<noteq> length ([] :: string)"
    and "length (slug @ ''.mdx'') \<noteq> length ''.''"
    and "length (slug @ ''.mdx'') \<noteq> length ''..''"
    by simp_all
  then have "slug @ ''.mdx'' \<noteq> [] \<and> slug @ ''.mdx'' \<noteq> ''.'' \<and> slug @ ''.mdx'' \<noteq> ''..''"
    by metis
  ultimately show ?thesis by (simp add: joinRoot_def)
qed

lemma joinRoot_separator:
  "hasSeparator slug \<Longrightarrow> joinRoot (slug @ ''.mdx'') = Elsewhere (slug @ ''.mdx'')"
  by (simp add: joinRoot_def hasSeparator_def)

lemma getProjectBySlug_cases:
  "getProjectBySlug parse fs slug =
     (case readFileSync fs (joinRoot (slug @ ''.mdx'')) of
        Inl e \<Rightarrow> Inr None
      | Inr rawText \<Rightarrow>
          (case parse rawText of
             Inl e \<Rightarrow> Inr None
           | Inr (data, body) \<Rightarrow> Inr (Some \<lparr>metadata = with_slug data slug, content = body\<rparr>)))"
  by (simp add: getProjectBySlug_def readProject_def split: sum.splits prod.splits)

lemma getProjectBySlug_elsewhere:
  assumes "hasSeparator slug"
  shows "getProjectBySlug parse fs slug =
     (case elsewhere fs (slug @ ''.mdx'') of
        Inl e \<Rightarrow> Inr None
      | Inr rawText \<Rightarrow>
          (case parse rawText of
             Inl e \<Rightarrow> Inr None
           | Inr (data, body) \<Rightarrow> Inr (Some \<lparr>metadata = with_slug data slug, content = body\<rparr>)))"
  using assms by (simp add: getProjectBySlug_cases joinRoot_separator readFileSync_def)

lemma readFileSync_absent:
  assumes "readdirSync fs = Inr files" and "fileName \<notin> set files"
  shows "readFileSync fs (InRoot fileName) = Inl ENOENT"
proof (cases "rootEntries fs")
  case None
  then show ?thesis by (simp add: readFileSync_def)
next
  case (Some es)
  with assms have "fileName \<notin> fst ` set es" by (force simp: readdirSync_def)
  then have "map_of es fileName = None" by (simp add: map_of_eq_None_iff)
  with Some show ?thesis by (simp add: readFileSync_def)
qed

lemma readFileSync_missing_directory:
  "readdirSync fs = Inl e \<Longrightarrow> readFileSync fs (InRoot fileName) = Inl ENOENT"
  by (cases "rootEntries fs") (simp_all add: readdirSync_def readFileSync_def)

text \<open>
  C7. An identifier that is the derived identifier of a document does not always give
  that document. The file \<open>notes.txt\<close> is listed with the identifier \<open>notes.txt\<close>, and
  the unreadable \<open>a.mdx\<close> has the derived identifier \<open>a\<close>; for both identifiers
  \<open>getProjectBySlug\<close> returns \<open>null\<close>.
\<close>

theorem getProjectBySlug_match_gives_null:
  "''notes.txt'' \<in> set (identifiers notes_directory) \<and>
   getProjects matter isoDate notes_directory None = Inr [[(''slug'', ''notes.txt'')]] \<and>
   getProjectBySlug matter notes_directory ''notes.txt'' = Inr None \<and>
   ''a'' \<in> set (identifiers denied_directory) \<and>
   getProjectBySlug matter denied_directory ''a'' = Inr None"
  by code_simp

text \<open>
  C7, as the code has it. \<open>getProjectBySlug\<close> never throws. For a slug without a path
  separator: when it is the derived identifier of no document of the collection, and
  more generally when the directory has no file \<open>slug.mdx\<close>, the result is \<open>null\<close>; when
  the file \<open>slug.mdx\<close> cannot be read or its frontmatter does not parse, the result is
  \<open>null\<close> as well; when the file \<open>slug.mdx\<close> of the directory can be read and its
  frontmatter parses, the result is that document, whose derived identifier is the
  slug: its body as content, and as metadata the parsed fields with the key \<open>slug\<close> set
  to the slug and every other key as parsed, which is the record \<open>getProjectMetadata\<close>
  gives for that file.
\<close>

theorem getProjectBySlug_lookup:
  "getProjectBySlug parse fs slug \<noteq> Inl e \<and>
   (\<not> hasSeparator slug \<and> slug \<notin> set (identifiers fs) \<longrightarrow>
      getProjectBySlug parse fs slug = Inr None) \<and>
   (\<not> hasSeparator slug \<and> readdirSync fs = Inr files \<and> slug @ ''.mdx'' \<notin> set files \<longrightarrow>
      getProjectBySlug parse fs slug = Inr None) \<and>
   (\<not> hasSeparator slug \<and> readFileSync fs (InRoot (slug @ ''.mdx'')) = Inl e \<longrightarrow>
      getProjectBySlug parse fs slug = Inr None) \<and>
   (\<not> hasSeparator slug \<and> readFileSync fs (InRoot (slug @ ''.mdx'')) = Inr rawText \<and>
    parse rawText = Inl e \<longrightarrow>
      getProjectBySlug parse fs slug = Inr None) \<and>
   (\<not> hasSeparator slug \<and> readFileSync fs (InRoot (slug @ ''.mdx'')) = Inr rawText \<and>
    parse rawText = Inr (data, body) \<longrightarrow>
      strip_mdx (slug @ ''.mdx'') = slug \<and>
      getProjectBySlug parse fs slug =
        Inr (Some \<lparr>metadata = with_slug data slug, content = body\<rparr>) \<and>
      map_of (with_slug data slug) ''slug'' = Some slug \<and>
      (\<forall>key. key \<noteq> ''slug'' \<longrightarrow> map_of (with_slug data slug) key = map_of data key) \<and>
      getProjectMetadata parse fs (slug @ ''.mdx'') = Inr (with_slug data slug))"
proof (intro conjI impI allI)
  show "getProjectBySlug parse fs slug \<noteq> Inl e"
    by (simp add: getProjectBySlug_def split: sum.splits)
next
  assume none: "\<not> hasSeparator slug \<and> slug \<notin> set (identifiers fs)"
  have "readFileSync fs (InRoot (slug @ ''.mdx'')) = Inl ENOENT"
  proof (cases "readdirSync fs")
    case (Inl e')
    then show ?thesis by (rule readFileSync_missing_directory)
  next
    case (Inr files')
    have "slug @ ''.mdx'' \<notin> set files'"
    proof
      assume "slug @ ''.mdx'' \<in> set files'"
      then have "strip_mdx (slug @ ''.mdx'') \<in> set (identifiers fs)"
        using Inr by (simp add: identifiers_def del: strip_mdx_append)
      with none show False by simp
    qed
    with Inr show ?thesis by (rule readFileSync_absent)
  qed
  then show "getProjectBySlug parse fs slug = Inr None"
    using none by (simp add: getProjectBySlug_cases joinRoot_slug)
next
  assume "\<not> hasSeparator slug \<and> readdirSync fs = Inr files \<and> slug @ ''.mdx'' \<notin> set files"
  then show "getProjectBySlug parse fs slug = Inr None"
    by (simp add: getProjectBySlug_cases joinRoot_slug readFileSync_absent)
next
  assume "\<not> hasSeparator slug \<and> readFileSync fs (InRoot (slug @ ''.mdx'')) = Inl e"
  then show "getProjectBySlug parse fs slug = Inr None"
    by (simp add: getProjectBySlug_cases joinRoot_slug)
next
  assume "\<not> hasSeparator slug \<and> readFileSync fs (InRoot (slug @ ''.mdx'')) = Inr rawText \<and>
    parse rawText = Inl e"
  then show "getProjectBySlug parse fs slug = Inr None"
    by (simp add: getProjectBySlug_cases joinRoot_slug)
next
  show "strip_mdx (slug @ ''.mdx'') = slug" by simp
next
  assume "\<not> hasSeparator slug \<and> readFileSync fs (InRoot (slug @ ''.mdx'')) = Inr rawText \<and>
    parse rawText = Inr (data, body)"
  then show "getProjectBySlug parse fs slug =
      Inr (Some \<lparr>metadata = with_slug data slug, content = body\<rparr>)"
    by (simp add: getProjectBySlug_cases joinRoot_slug)
next
  show "map_of (with_slug data slug) ''slug'' = Some slug" by simp
next
  fix key :: string
  assume "key \<noteq> ''slug''"
  then show "map_of (with_slug data slug) key = map_of data key"
    by (rule map_of_with_slug_other)
next
  assume "\<not> hasSeparator slug \<and> readFileSync fs (InRoot (slug @ ''.mdx'')) = Inr rawText \<and>
    parse rawText = Inr (data, body)"
  then show "getProjectMetadata parse fs (slug @ ''.mdx'') = Inr (with_slug data slug)"
    by (simp add: getProjectMetadata_def joinRoot_slug)
qed

theorem getProjectBySlug_lookup_witness:
  "\<not> hasSeparator ''nope'' \<and> ''nope'' \<notin> set (identifiers dated_directory) \<and>
   getProjectBySlug matter dated_directory ''nope'' = Inr None \<and>
   \<not> hasSeparator ''notes.txt'' \<and> readdirSync notes_directory = Inr [''notes.txt''] \<and>
   ''notes.txt'' @ ''.mdx'' \<notin> set [''notes.txt''] \<and>
   getProjectBySlug matter notes_directory ''notes.txt'' = Inr None \<and>
   \<not> hasSeparator ''a'' \<and>
   readFileSync denied_directory (InRoot (''a'' @ ''.mdx'')) = Inl EACCES \<and>
   getProjectBySlug matter denied_directory ''a'' = Inr None \<and>
   rejecting_parser (document [CHR 0x27] [(''title'', ''Y''), (''date'', ''2024-01-01'')] ''About Y'') =
     Inl YAMLException \<and>
   getProjectBySlug rejecting_parser dated_directory ''y'' = Inr None \<and>
   \<not> hasSeparator ''y'' \<and>
   readFileSync dated_directory (InRoot (''y'' @ ''.mdx'')) =
     Inr (document [CHR 0x27] [(''title'', ''Y''), (''date'', ''2024-01-01'')] ''About Y'') \<and>
   matter (document [CHR 0x27] [(''title'', ''Y''), (''date'', ''2024-01-01'')] ''About Y'') =
     Inr ([(''title'', ''Y''), (''date'', ''2024-01-01'')], ''About Y'') \<and>
   getProjectBySlug matter dated_directory ''y'' =
     Inr (Some \<lparr>metadata = with_slug [(''title'', ''Y''), (''date'', ''2024-01-01'')] ''y'',
                 content = ''About Y''\<rparr>) \<and>
   with_slug [(''title'', ''Y''), (''date'', ''2024-01-01'')] ''y'' =
     [(''title'', ''Y''), (''date'', ''2024-01-01''), (''slug'', ''y'')] \<and>
   getProjectMetadata matter dated_directory (''y'' @ ''.mdx'') =
     Inr (with_slug [(''title'', ''Y''), (''date'', ''2024-01-01'')] ''y'')"
proof -
  have plain_nope: "\<not> hasSeparator ''nope''" by code_simp
  have absent: "''nope'' \<notin> set (identifiers dated_directory)" by code_simp
  have plain_notes: "\<not> hasSeparator ''notes.txt''" by code_simp
  have listed: "readdirSync notes_directory = Inr [''notes.txt'']" by code_simp
  have other_name: "''notes.txt'' @ ''.mdx'' \<notin> set [''notes.txt'']" by simp
  have plain_y: "\<not> hasSeparator ''y''" by code_simp
  have read: "readFileSync dated_directory (InRoot (''y'' @ ''.mdx'')) =
      Inr (document [CHR 0x27] [(''title'', ''Y''), (''date'', ''2024-01-01'')] ''About Y'')"
    by code_simp
  have parsed: "matter (document [CHR 0x27] [(''title'', ''Y''), (''date'', ''2024-01-01'')] ''About Y'') =
      Inr ([(''title'', ''Y''), (''date'', ''2024-01-01'')], ''About Y'')"
    by code_simp
  have updated: "with_slug [(''title'', ''Y''), (''date'', ''2024-01-01'')] ''y'' =
      [(''title'', ''Y''), (''date'', ''2024-01-01''), (''slug'', ''y'')]"
    by (simp add: with_slug_def)
  have miss: "getProjectBySlug matter dated_directory ''nope'' = Inr None"
    using plain_nope absent
      getProjectBySlug_lookup [where parse = matter and fs = dated_directory and slug = "''nope''"]
    by blast
  have no_file: "getProjectBySlug matter notes_directory ''notes.txt'' = Inr None"
    using plain_notes listed other_name
      getProjectBySlug_lookup [where parse = matter and fs = notes_directory
        and slug = "''notes.txt''" and files = "[''notes.txt'']"]
    by blast
  have plain_a: "\<not> hasSeparator ''a''" by code_simp
  have unreadable: "readFileSync denied_directory (InRoot (''a'' @ ''.mdx'')) = Inl EACCES"
    by code_simp
  have rejected: "rejecting_parser
      (document [CHR 0x27] [(''title'', ''Y''), (''date'', ''2024-01-01'')] ''About Y'') =
      Inl YAMLException"
    by (simp add: rejecting_parser_def)
  have denied: "getProjectBySlug matter denied_directory ''a'' = Inr None"
    using plain_a unreadable
      getProjectBySlug_lookup [where parse = matter and fs = denied_directory and slug = "''a''"
        and e = EACCES]
    by blast
  have unparsed: "getProjectBySlug rejecting_parser dated_directory ''y'' = Inr None"
    using plain_y read rejected
      getProjectBySlug_lookup [where parse = rejecting_parser and fs = dated_directory
        and slug = "''y''" and e = YAMLException
        and rawText = "document [CHR 0x27] [(''title'', ''Y''), (''date'', ''2024-01-01'')] ''About Y''"]
    by blast
  note found = getProjectBySlug_lookup [where parse = matter and fs = dated_directory
      and slug = "''y''" and data = "[(''title'', ''Y''), (''date'', ''2024-01-01'')]"
      and body = "''About Y''"
      and rawText = "document [CHR 0x27] [(''title'', ''Y''), (''date'', ''2024-01-01'')] ''About Y''"]
  have hit: "getProjectBySlug matter dated_directory ''y'' =
      Inr (Some \<lparr>metadata = with_slug [(''title'', ''Y''), (''date'', ''2024-01-01'')] ''y'',
                  content = ''About Y''\<rparr>)"
    using plain_y read parsed found by blast
  have meta: "getProjectMetadata matter dated_directory (''y'' @ ''.mdx'') =
      Inr (with_slug [(''title'', ''Y''), (''date'', ''2024-01-01'')] ''y'')"
    using plain_y read parsed found by blast
  show ?thesis
    by (intro conjI plain_nope absent miss plain_notes listed other_name no_file plain_a
        unreadable denied rejected unparsed plain_y read parsed hit updated meta)
qed

text \<open>
  C6. A failure of the file system does not leave \<open>getProjectBySlug\<close>: with no directory,
  and with a file that cannot be read, the result is \<open>null\<close>, the same value as for a
  slug that no file has.
\<close>

theorem getProjectBySlug_swallows_failure:
  "readdirSync no_directory = Inl ENOENT \<and>
   getProjectBySlug matter no_directory ''a'' = Inr None \<and>
   readFileSync denied_directory (joinRoot ''a.mdx'') = Inl EACCES \<and>
   getProjectBySlug matter denied_directory ''a'' = Inr None \<and>
   getProjectBySlug matter empty_directory ''a'' = Inr None"
  by code_simp

text \<open>
  C6, as the code has it. \<open>getProjectBySlug\<close> propagates no failure. Whenever reading
  the file at the joined path fails, and whenever its frontmatter does not parse, the
  \<open>catch\<close> turns the exception into \<open>null\<close>. For a slug without a path separator that
  is the case when the directory does not exist, and \<open>null\<close> is also the result of an
  ordinary miss, when the directory has no file \<open>slug.mdx\<close>.
\<close>

theorem getProjectBySlug_failure_is_null:
  "(\<not> hasSeparator slug \<and> readdirSync fs = Inl e \<longrightarrow>
      getProjectBySlug parse fs slug = Inr None) \<and>
   (readFileSync fs (joinRoot (slug @ ''.mdx'')) = Inl e \<longrightarrow>
      getProjectBySlug parse fs slug = Inr None) \<and>
   (readFileSync fs (joinRoot (slug @ ''.mdx'')) = Inr rawText \<and> parse rawText = Inl e \<longrightarrow>
      getProjectBySlug parse fs slug = Inr None) \<and>
   (\<not> hasSeparator slug \<and> readdirSync fs = Inr files \<and> slug @ ''.mdx'' \<notin> set files \<longrightarrow>
      getProjectBySlug parse fs slug = Inr None) \<and>
   getProjectBySlug parse fs slug \<noteq> Inl e"
proof (intro conjI impI)
  assume "\<not> hasSeparator slug \<and> readdirSync fs = Inl e"
  then show "getProjectBySlug parse fs slug = Inr None"
    by (simp add: getProjectBySlug_cases joinRoot_slug readFileSync_missing_directory)
next
  assume "readFileSync fs (joinRoot (slug @ ''.mdx'')) = Inl e"
  then show "getProjectBySlug parse fs slug = Inr None"
    by (simp add: getProjectBySlug_cases)
next
  assume "readFileSync fs (joinRoot (slug @ ''.mdx'')) = Inr rawText \<and> parse rawText = Inl e"
  then show "getProjectBySlug parse fs slug = Inr None"
    by (simp add: getProjectBySlug_cases)
next
  assume "\<not> hasSeparator slug \<and> readdirSync fs = Inr files \<and> slug @ ''.mdx'' \<notin> set files"
  then show "getProjectBySlug parse fs slug = Inr None"
    by (simp add: getProjectBySlug_cases joinRoot_slug readFileSync_absent)
next
  show "getProjectBySlug parse fs slug \<noteq> Inl e"
    by (simp add: getProjectBySlug_def split: sum.splits)
qed

theorem getProjectBySlug_failure_is_null_witness:
  "\<not> hasSeparator ''a'' \<and> readdirSync no_directory = Inl ENOENT \<and>
   getProjectBySlug matter no_directory ''a'' = Inr None \<and>
   readFileSync denied_directory (joinRoot (''a'' @ ''.mdx'')) = Inl EACCES \<and>
   getProjectBySlug matter denied_directory ''a'' = Inr None \<and>
   readFileSync dated_directory (joinRoot (''y'' @ ''.mdx'')) =
     Inr (document [CHR 0x27] [(''title'', ''Y''), (''date'', ''2024-01-01'')] ''About Y'') \<and>
   rejecting_parser (document [CHR 0x27] [(''title'', ''Y''), (''date'', ''2024-01-01'')] ''About Y'') =
     Inl YAMLException \<and>
   getProjectBySlug rejecting_parser dated_directory ''y'' = Inr None \<and>
   readdirSync empty_directory = Inr [] \<and> ''a'' @ ''.mdx'' \<notin> set [] \<and>
   getProjectBySlug matter empty_directory ''a'' = Inr None"
proof -
  have plain: "\<not> hasSeparator ''a''" by code_simp
  have missing: "readdirSync no_directory = Inl ENOENT" by code_simp
  have unreadable: "readFileSync denied_directory (joinRoot (''a'' @ ''.mdx'')) = Inl EACCES"
    by code_simp
  have read: "readFileSync dated_directory (joinRoot (''y'' @ ''.mdx'')) =
      Inr (document [CHR 0x27] [(''title'', ''Y''), (''date'', ''2024-01-01'')] ''About Y'')"
    by code_simp
  have rejected: "rejecting_parser
      (document [CHR 0x27] [(''title'', ''Y''), (''date'', ''2024-01-01'')] ''About Y'') =
      Inl YAMLException"
    by (simp add: rejecting_parser_def)
  have listed: "readdirSync empty_directory = Inr []" by code_simp
  have no_file: "''a'' @ ''.mdx'' \<notin> set []" by simp
  have r1: "getProjectBySlug matter no_directory ''a'' = Inr None"
    using plain missing
      getProjectBySlug_failure_is_null [where fs = no_directory and e = ENOENT and parse = matter
        and slug = "''a''"]
    by blast
  have r2: "getProjectBySlug matter denied_directory ''a'' = Inr None"
    using unreadable
      getProjectBySlug_failure_is_null [where fs = denied_directory and e = EACCES and parse = matter
        and slug = "''a''"]
    by blast
  have r3: "getProjectBySlug rejecting_parser dated_directory ''y'' = Inr None"
    using read rejected
      getProjectBySlug_failure_is_null [where fs = dated_directory and e = YAMLException
        and parse = rejecting_parser and slug = "''y''"
        and rawText = "document [CHR 0x27] [(''title'', ''Y''), (''date'', ''2024-01-01'')] ''About Y''"]
    by blast
  have r4: "getProjectBySlug matter empty_directory ''a'' = Inr None"
    using plain listed no_file
      getProjectBySlug_failure_is_null [where fs = empty_directory and parse = matter
        and slug = "''a''" and files = "[]"]
    by blast
  show ?thesis
    by (intro conjI plain missing r1 unreadable r2 read rejected r3 listed no_file r4)
qed

section \<open>The slug\<close>

text \<open>
  C10. For a file name that ends in \<open>.mdx\<close>, the record of \<open>getProjectMetadata\<close> has the
  file name without \<open>.mdx\<close> as its slug; the record of \<open>getProjectBySlug(s)\<close> has the slug
  \<open>s\<close>; and a slug that the frontmatter declares is replaced by it.
\<close>

theorem slug_from_file_name:
  "(getProjectMetadata parse fs (base @ ''.mdx'') = Inr m \<longrightarrow> map_of m ''slug'' = Some base) \<and>
   (getProjectBySlug parse fs s = Inr (Some p) \<longrightarrow> map_of (metadata p) ''slug'' = Some s) \<and>
   (map_of data ''slug'' = Some declared \<longrightarrow> map_of (with_slug data s) ''slug'' = Some s)"
proof (intro conjI impI)
  assume "getProjectMetadata parse fs (base @ ''.mdx'') = Inr m"
  then obtain data' where "m = with_slug data' base"
    by (auto simp: getProjectMetadata_def split: sum.splits)
  then show "map_of m ''slug'' = Some base" by simp
next
  assume "getProjectBySlug parse fs s = Inr (Some p)"
  then obtain data' body where "p = \<lparr>metadata = with_slug data' s, content = body\<rparr>"
    by (auto simp: getProjectBySlug_cases split: sum.splits)
  then show "map_of (metadata p) ''slug'' = Some s" by simp
next
  show "map_of (with_slug data s) ''slug'' = Some s" by simp
qed

theorem slug_from_file_name_witness:
  "getProjectMetadata matter dated_directory (''z'' @ ''.mdx'') =
     Inr [(''slug'', ''z''), (''date'', ''2023-06-30'')] \<and>
   map_of [(''slug'', ''z''), (''date'', ''2023-06-30'')] ''slug'' = Some ''z'' \<and>
   getProjectBySlug matter dated_directory ''z'' =
     Inr (Some \<lparr>metadata = [(''slug'', ''z''), (''date'', ''2023-06-30'')], content = ''About Z''\<rparr>) \<and>
   map_of (metadata \<lparr>metadata = [(''slug'', ''z''), (''date'', ''2023-06-30'')], content = ''About Z''\<rparr>)
     ''slug'' = Some ''z'' \<and>
   map_of [(''slug'', ''other''), (''date'', ''2023-06-30'')] ''slug'' = Some ''other'' \<and>
   map_of (with_slug [(''slug'', ''other''), (''date'', ''2023-06-30'')] ''z'') ''slug'' = Some ''z''"
proof -
  have meta: "getProjectMetadata matter dated_directory (''z'' @ ''.mdx'') =
      Inr [(''slug'', ''z''), (''date'', ''2023-06-30'')]"
    by code_simp
  have project: "getProjectBySlug matter dated_directory ''z'' =
      Inr (Some \<lparr>metadata = [(''slug'', ''z''), (''date'', ''2023-06-30'')], content = ''About Z''\<rparr>)"
    by code_simp
  have declared: "map_of [(''slug'', ''other''), (''date'', ''2023-06-30'')] ''slug'' = Some ''other''"
    by simp
  note slug = slug_from_file_name [where parse = matter and fs = dated_directory and base = "''z''"
      and m = "[(''slug'', ''z''), (''date'', ''2023-06-30'')]" and s = "''z''"
      and p = "\<lparr>metadata = [(''slug'', ''z''), (''date'', ''2023-06-30'')], content = ''About Z''\<rparr>"
      and data = "[(''slug'', ''other''), (''date'', ''2023-06-30'')]" and declared = "''other''"]
  have from_name: "map_of [(''slug'', ''z''), (''date'', ''2023-06-30'')] ''slug'' = Some ''z''"
    by (rule slug [THEN conjunct1, THEN mp, OF meta])
  have from_lookup: "map_of (metadata \<lparr>metadata = [(''slug'', ''z''), (''date'', ''2023-06-30'')],
      content = ''About Z''\<rparr>) ''slug'' = Some ''z''"
    by (rule slug [THEN conjunct2, THEN conjunct1, THEN mp, OF project])
  have overwritten: "map_of (with_slug [(''slug'', ''other''), (''date'', ''2023-06-30'')] ''z'') ''slug'' = Some ''z''"
    by (rule slug [THEN conjunct2, THEN conjunct2, THEN mp, OF declared])
  show ?thesis
    by (intro conjI meta from_name project from_lookup declared overwritten)
qed

section \<open>The listing\<close>

lemma getProjects_no_limit:
  "getProjects parse tv fs None =
     (case readdirSync fs of
        Inl e \<Rightarrow> Inl e
      | Inr files \<Rightarrow>
          (case map_throwing (getProjectMetadata parse fs) files of
             Inl e \<Rightarrow> Inl e
           | Inr metas \<Rightarrow> Inr (js_sort (compareProjects tv) metas)))"
  by (simp add: getProjects_def split: sum.splits)

lemma getProjects_limit:
  "getProjects parse tv fs (Some k) =
     (case getProjects parse tv fs None of
        Inl e \<Rightarrow> Inl e
      | Inr projects \<Rightarrow> if k = 0 then Inr projects else Inr (slice0 projects k))"
  by (simp add: getProjects_def split: sum.splits)

lemma getProjects_positive_limit:
  assumes "0 < k" and "getProjects parse tv fs None = Inr projects"
  shows "getProjects parse tv fs (Some k) = Inr (take (nat k) projects)"
  using assms by (simp add: getProjects_limit slice0_def)

lemma getProjects_length:
  assumes "getProjects parse tv fs None = Inr projects" and "readdirSync fs = Inr files"
  shows "length projects = length files"
  using assms by (auto simp: getProjects_no_limit split: sum.splits dest: map_throwing_length)

lemma getProjects_limit_zero:
  "getProjects parse tv fs (Some 0) = getProjects parse tv fs None"
  by (simp add: getProjects_limit split: sum.splits)

text \<open>
  C2. A limit of \<open>0\<close> is not truthy, so \<open>getProjects(0)\<close> skips \<open>slice\<close> and returns all
  three records of the directory, not an empty array.
\<close>

theorem getProjects_limit_zero_returns_all:
  "getProjects matter isoDate undated_directory (Some 0) =
     Inr [[(''slug'', ''c'')],
          [(''title'', ''B''), (''date'', ''2024-01-01''), (''slug'', ''b'')],
          [(''title'', ''A''), (''slug'', ''a'')]]"
  by code_simp

lemma compareProjects_dated:
  assumes "tv (date_or_empty a) \<noteq> None" and "tv (date_or_empty b) \<noteq> None"
  shows "(compareProjects tv a b < 0) = (the (tv (date_or_empty b)) \<le> the (tv (date_or_empty a)))"
  using assms by (auto simp: compareProjects_def date_lt_def)

lemma date_ge_missing_min_dated:
  assumes "tv (date_or_empty a) \<noteq> None" and "tv (date_or_empty b) \<noteq> None"
  shows "date_ge_missing_min tv a b = (the (tv (date_or_empty b)) \<le> the (tv (date_or_empty a)))"
  using assms by (auto simp: date_ge_missing_min_def)

lemma compareProjects_undated:
  assumes "tv (date_or_empty a) = None \<or> tv (date_or_empty b) = None"
  shows "compareProjects tv a b = - 1"
  using assms by (auto simp: compareProjects_def date_lt_def split: option.splits)

text \<open>
  C1. In a directory whose first and last document have no date, the listing puts a
  record without a date before the dated one, which the order with a missing date as
  the minimum forbids.
\<close>

theorem getProjects_undated_before_dated:
  "getProjects matter isoDate undated_directory None =
     Inr [[(''slug'', ''c'')],
          [(''title'', ''B''), (''date'', ''2024-01-01''), (''slug'', ''b'')],
          [(''title'', ''A''), (''slug'', ''a'')]] \<and>
   \<not> date_ge_missing_min isoDate [(''slug'', ''c'')]
         [(''title'', ''B''), (''date'', ''2024-01-01''), (''slug'', ''b'')] \<and>
   \<not> sorted_wrt (date_ge_missing_min isoDate)
         [[(''slug'', ''c'')],
          [(''title'', ''B''), (''date'', ''2024-01-01''), (''slug'', ''b'')],
          [(''title'', ''A''), (''slug'', ''a'')]]"
  by code_simp

text \<open>
  C1, as the code has it. When the date of every document of the collection parses, the
  records \<open>getProjects\<close> returns, with any limit or none, are sorted by date, latest
  first. A record whose date is absent or does not parse is given no place: the
  comparator answers \<open>-1\<close> whenever one of its two arguments is such a record.
\<close>

theorem getProjects_sorted_when_dated:
  assumes full: "getProjects parse tv fs None = Inr allProjects"
    and dated: "\<forall>p\<in>set allProjects. tv (date_or_empty p) \<noteq> None"
    and listed: "getProjects parse tv fs limit = Inr projects"
  shows "sorted_wrt (date_ge_missing_min tv) projects \<and>
         (tv (date_or_empty a) = None \<or> tv (date_or_empty b) = None \<longrightarrow>
            compareProjects tv a b = - 1)"
proof -
  obtain files metas where metas: "readdirSync fs = Inr files"
      "map_throwing (getProjectMetadata parse fs) files = Inr metas"
      "allProjects = js_sort (compareProjects tv) metas"
    using full by (auto simp: getProjects_no_limit split: sum.splits)
  define k where "k = (\<lambda>p. the (tv (date_or_empty p)))"
  have all_dated: "\<forall>p\<in>set metas. tv (date_or_empty p) \<noteq> None"
    using dated metas(3) by simp
  have "\<forall>a\<in>set metas. \<forall>b\<in>set metas. (compareProjects tv a b < 0) = (k b \<le> k a)"
    using all_dated by (simp add: compareProjects_dated k_def)
  then have "sorted_wrt (\<lambda>a b. k b \<le> k a) allProjects"
    unfolding metas(3) by (rule sorted_js_sort)
  then have sorted_all: "sorted_wrt (date_ge_missing_min tv) allProjects"
    using dated by (auto simp: date_ge_missing_min_dated k_def elim: sorted_wrt_mono_rel [rotated])
  have "sorted_wrt (date_ge_missing_min tv) projects"
  proof (cases limit)
    case None
    with full listed sorted_all show ?thesis by simp
  next
    case (Some n)
    then have "projects = allProjects \<or> projects = slice0 allProjects n"
      using full listed by (auto simp: getProjects_limit split: if_splits)
    then show ?thesis
      using sorted_all by (auto simp: slice0_def intro: sorted_wrt_take)
  qed
  then show ?thesis by (simp add: compareProjects_undated)
qed

theorem getProjects_sorted_when_dated_witness:
  "getProjects matter isoDate dated_directory None =
     Inr [[(''title'', ''Y''), (''date'', ''2024-01-01''), (''slug'', ''y'')],
          [(''slug'', ''z''), (''date'', ''2023-06-30'')],
          [(''title'', ''X''), (''date'', ''2023-01-12''), (''slug'', ''x'')]] \<and>
   getProjects matter isoDate dated_directory (Some 2) =
     Inr [[(''title'', ''Y''), (''date'', ''2024-01-01''), (''slug'', ''y'')],
          [(''slug'', ''z''), (''date'', ''2023-06-30'')]] \<and>
   sorted_wrt (date_ge_missing_min isoDate)
     [[(''title'', ''Y''), (''date'', ''2024-01-01''), (''slug'', ''y'')],
      [(''slug'', ''z''), (''date'', ''2023-06-30'')]]"
proof -
  have full: "getProjects matter isoDate dated_directory None =
     Inr [[(''title'', ''Y''), (''date'', ''2024-01-01''), (''slug'', ''y'')],
          [(''slug'', ''z''), (''date'', ''2023-06-30'')],
          [(''title'', ''X''), (''date'', ''2023-01-12''), (''slug'', ''x'')]]"
    by code_simp
  have dated: "\<forall>p\<in>set [[(''title'', ''Y''), (''date'', ''2024-01-01''), (''slug'', ''y'')],
          [(''slug'', ''z''), (''date'', ''2023-06-30'')],
          [(''title'', ''X''), (''date'', ''2023-01-12''), (''slug'', ''x'')]].
      isoDate (date_or_empty p) \<noteq> None"
    by code_simp
  have listed: "getProjects matter isoDate dated_directory (Some 2) =
     Inr [[(''title'', ''Y''), (''date'', ''2024-01-01''), (''slug'', ''y'')],
          [(''slug'', ''z''), (''date'', ''2023-06-30'')]]"
    by code_simp
  have sorted: "sorted_wrt (date_ge_missing_min isoDate)
     [[(''title'', ''Y''), (''date'', ''2024-01-01''), (''slug'', ''y'')],
      [(''slug'', ''z''), (''date'', ''2023-06-30'')]]"
    by (rule getProjects_sorted_when_dated [OF full dated listed, THEN conjunct1])
  show ?thesis
    by (intro conjI full listed sorted)
qed


section \<open>The quiz\<close>

lemma unanswered_in_range:
  "selectedAnswer st = Some Null \<Longrightarrow>
     currentQuestion st < length (userAnswers st) \<and> userAnswers st ! currentQuestion st = Null"
  by (auto simp: selectedAnswer_def lookup_def split: if_splits)

lemma handleAnswer_answered [simp]: "showResult (handleAnswer st i)"
proof (cases "showResult st")
  case True
  then show ?thesis by (simp add: handleAnswer_def)
next
  case False
  then have "selectedAnswer st = Some Null" by (simp add: showResult_def)
  then have "currentQuestion st < length (userAnswers st)" by (simp add: unanswered_in_range)
  then show ?thesis
    using False by (simp add: handleAnswer_def showResult_def selectedAnswer_def lookup_def)
qed

lemma handleAnswer_once: "handleAnswer (handleAnswer st i) j = handleAnswer st i"
  using handleAnswer_answered [of st i] by (subst handleAnswer_def) simp

lemma nextQuestion_changes:
  assumes "\<not> isQuizCompleted st"
  shows "nextQuestion questions st \<noteq> st"
proof
  assume same: "nextQuestion questions st = st"
  show False
  proof (cases "isLastQuestion questions st")
    case True
    then have "isQuizCompleted (nextQuestion questions st)" by (simp add: nextQuestion_def)
    with same assms show False by simp
  next
    case False
    then have "currentQuestion (nextQuestion questions st) = currentQuestion st + 1"
      by (simp add: nextQuestion_def)
    with same show False by simp
  qed
qed

lemma reduce_score_count:
  "idx + length answers \<le> length questions \<Longrightarrow>
     reduce_score questions tot idx answers =
       Inr (tot + length (filter (\<lambda>(a, q). a = Selected (correctAnswer q))
                           (zip answers (drop idx questions))))"
proof (induction answers arbitrary: tot idx)
  case Nil
  then show ?case by simp
next
  case (Cons a answers)
  then have lt: "idx < length questions" by simp
  then have split: "drop idx questions = questions ! idx # drop (Suc idx) questions"
    by (simp add: Cons_nth_drop_Suc)
  have "Suc idx + length answers \<le> length questions" using Cons.prems by simp
  from Cons.IH [OF this] show ?case
    using lt by (simp add: lookup_def split)
qed

lemma score_count:
  "length answers \<le> length questions \<Longrightarrow>
     score questions answers =
       Inr (length (filter (\<lambda>(a, q). a = Selected (correctAnswer q)) (zip answers questions)))"
  using reduce_score_count [of 0 answers questions 0] by (simp add: score_def)

lemma lookup_answerButtons:
  assumes "i < length (options q)"
  shows "lookup (answerButtons q st) i =
     Some \<lparr>option = options q ! i, index = i,
           isSelected = (selectedAnswer st = Some (Selected (int i))),
           isCorrect = (if showResult st then Some (int i = correctAnswer q) else None),
           disabled = showResult st\<rparr>"
  using assms by (simp add: lookup_def answerButtons_def nth_enumerate_eq)

lemma click_answer:
  assumes "\<not> isQuizCompleted st" and "lookup questions (currentQuestion st) = Some q"
    and "i < length (options q)"
  shows "click questions st (ClickAnswer i) = handleAnswer st (int i)"
proof (cases "showResult st")
  case True
  then show ?thesis
    using assms by (simp add: click_def Quiz_def lookup_answerButtons handleAnswer_def)
next
  case False
  then show ?thesis
    using assms by (simp add: click_def Quiz_def lookup_answerButtons)
qed

lemma click_next:
  assumes "\<not> isQuizCompleted st" and "lookup questions (currentQuestion st) = Some q"
    and "showResult st"
  shows "click questions st ClickNext = nextQuestion questions st"
  using assms by (simp add: click_def Quiz_def resultPanel_def)

text \<open>
  C3. In the initial state of the scenario quiz the current question is unanswered, and
  \<open>nextQuestion\<close> moves to the second question: the state is not unchanged.
\<close>

theorem nextQuestion_unguarded:
  "selectedAnswer (initial scenario_quiz) = Some Null \<and>
   nextQuestion scenario_quiz (initial scenario_quiz) =
     \<lparr>currentQuestion = 1, userAnswers = [Null, Null], isQuizCompleted = False\<rparr> \<and>
   initial scenario_quiz =
     \<lparr>currentQuestion = 0, userAnswers = [Null, Null], isQuizCompleted = False\<rparr> \<and>
   nextQuestion scenario_quiz (initial scenario_quiz) \<noteq> initial scenario_quiz"
  by (simp add: scenario_quiz_def initial_def nextQuestion_def isLastQuestion_def
      selectedAnswer_def lookup_def)

text \<open>
  C3, as the code has it. While the quiz is in progress and the current question is
  unanswered, the rendered card has no result panel, so the button that calls
  \<open>nextQuestion\<close> is not there and a click on it changes nothing. \<open>nextQuestion\<close> itself
  has no guard: called in such a state it completes the quiz on the last question and
  moves to the next question otherwise.
\<close>

theorem advance_not_offered_before_answer:
  assumes "\<not> isQuizCompleted st" and "selectedAnswer st = Some Null"
  shows "click questions st ClickNext = st \<and>
         Quiz questions st \<noteq> Inr (QuestionCard text buttons (Some labels)) \<and>
         nextQuestion questions st \<noteq> st \<and>
         nextQuestion questions st =
           (if isLastQuestion questions st then st\<lparr>isQuizCompleted := True\<rparr>
            else st\<lparr>currentQuestion := currentQuestion st + 1\<rparr>)"
proof -
  have hidden: "\<not> showResult st" using assms(2) by (simp add: showResult_def)
  have "click questions st ClickNext = st"
    using assms(1) hidden
    by (simp add: click_def Quiz_def resultPanel_def split: option.splits)
  moreover have "Quiz questions st \<noteq> Inr (QuestionCard text buttons (Some labels))"
    using assms(1) hidden
    by (simp add: Quiz_def resultPanel_def split: option.splits)
  moreover have "nextQuestion questions st \<noteq> st"
    using assms(1) by (rule nextQuestion_changes)
  ultimately show ?thesis by (simp add: nextQuestion_def)
qed

theorem advance_not_offered_before_answer_witness:
  "\<not> isQuizCompleted (initial scenario_quiz) \<and>
   selectedAnswer (initial scenario_quiz) = Some Null \<and>
   click scenario_quiz (initial scenario_quiz) ClickNext = initial scenario_quiz \<and>
   nextQuestion scenario_quiz (initial scenario_quiz) \<noteq> initial scenario_quiz"
proof -
  have running: "\<not> isQuizCompleted (initial scenario_quiz)"
    by (simp add: initial_def)
  have unanswered: "selectedAnswer (initial scenario_quiz) = Some Null"
    by (simp add: initial_def scenario_quiz_def selectedAnswer_def lookup_def)
  note guard = advance_not_offered_before_answer [OF running unanswered, of scenario_quiz]
  show ?thesis
    by (intro conjI running unanswered guard [THEN conjunct1]
        guard [THEN conjunct2, THEN conjunct2, THEN conjunct1])
qed

text \<open>
  C4. A quiz whose only question has no option and the correct index 7 mounts: the
  initial state and a card without buttons, no error.
\<close>

theorem malformed_quiz_mounts:
  "mount malformed_quiz =
     Inr (\<lparr>currentQuestion = 0, userAnswers = [Null], isQuizCompleted = False\<rparr>,
          QuestionCard ''Q'' [] None)"
  by (simp add: malformed_quiz_def mount_def Quiz_def initial_def lookup_def answerButtons_def
      resultPanel_def showResult_def selectedAnswer_def)

text \<open>
  C4, as the code has it. The component validates nothing. Every question list that is
  not empty mounts into the initial state and the card of its first question, whatever
  the options and the correct index of its questions are; the empty list fails in the
  first render, with a \<open>TypeError\<close>.
\<close>

theorem mount_without_validation:
  "mount [] = Inl TypeError \<and>
   (questions \<noteq> [] \<longrightarrow>
      mount questions =
        Inr (initial questions,
             QuestionCard (question (hd questions))
               (answerButtons (hd questions) (initial questions)) None))"
proof (intro conjI impI)
  show "mount [] = Inl TypeError"
    by (simp add: mount_def Quiz_def initial_def lookup_def)
next
  assume "questions \<noteq> []"
  then obtain q qs where "questions = q # qs" by (cases questions) auto
  then show "mount questions =
        Inr (initial questions,
             QuestionCard (question (hd questions))
               (answerButtons (hd questions) (initial questions)) None)"
    by (simp add: mount_def Quiz_def initial_def lookup_def resultPanel_def showResult_def
        selectedAnswer_def)
qed

theorem mount_without_validation_witness:
  "malformed_quiz \<noteq> [] \<and>
   mount malformed_quiz =
     Inr (initial malformed_quiz,
          QuestionCard (question (hd malformed_quiz))
            (answerButtons (hd malformed_quiz) (initial malformed_quiz)) None) \<and>
   answerButtons (hd malformed_quiz) (initial malformed_quiz) = []"
proof -
  have nonempty: "malformed_quiz \<noteq> []" by (simp add: malformed_quiz_def)
  have no_buttons: "answerButtons (hd malformed_quiz) (initial malformed_quiz) = []"
    by (simp add: malformed_quiz_def answerButtons_def)
  show ?thesis
    by (intro conjI nonempty no_buttons
        mount_without_validation [of malformed_quiz, THEN conjunct2, THEN mp, OF nonempty])
qed

text \<open>
  C5. For two questions with four options each and the correct indices 0 and 2:
  selecting the correct option of the first question, advancing, selecting an incorrect
  option of the second and advancing ends in the completed state, through the handlers
  and through the rendered buttons alike, and the completed card shows the score 1 of
  2. A second \<open>handleAnswer\<close> after a first changes nothing. The score expression is the
  number of positions whose recorded answer is the correct index of that question.
\<close>

theorem quiz_scenario:
  assumes "length (options q1) = 4" and "correctAnswer q1 = 0"
    and "length (options q2) = 4" and "correctAnswer q2 = 2"
    and "incorrect < 4" and "incorrect \<noteq> 2"
  shows "nextQuestion [q1, q2]
           (handleAnswer (nextQuestion [q1, q2] (handleAnswer (initial [q1, q2]) 0)) (int incorrect)) =
           \<lparr>currentQuestion = 1, userAnswers = [Selected 0, Selected (int incorrect)],
            isQuizCompleted = True\<rparr> \<and>
         click [q1, q2]
           (click [q1, q2] (click [q1, q2] (click [q1, q2] (initial [q1, q2]) (ClickAnswer 0)) ClickNext)
              (ClickAnswer incorrect)) ClickNext =
           \<lparr>currentQuestion = 1, userAnswers = [Selected 0, Selected (int incorrect)],
            isQuizCompleted = True\<rparr> \<and>
         Quiz [q1, q2]
           \<lparr>currentQuestion = 1, userAnswers = [Selected 0, Selected (int incorrect)],
            isQuizCompleted = True\<rparr> = Inr (Completed 1 2) \<and>
         handleAnswer (handleAnswer st i) j = handleAnswer st i \<and>
         (length answers \<le> length questions \<longrightarrow>
            score questions answers =
              Inr (length (filter (\<lambda>(a, q). a = Selected (correctAnswer q)) (zip answers questions))))"
proof -
  let ?qs = "[q1, q2]"
  let ?s1 = "\<lparr>currentQuestion = 0, userAnswers = [Selected 0, Null], isQuizCompleted = False\<rparr>"
  let ?s2 = "\<lparr>currentQuestion = 1, userAnswers = [Selected 0, Null], isQuizCompleted = False\<rparr>"
  let ?s3 = "\<lparr>currentQuestion = 1, userAnswers = [Selected 0, Selected (int incorrect)],
              isQuizCompleted = False\<rparr>"
  let ?s4 = "\<lparr>currentQuestion = 1, userAnswers = [Selected 0, Selected (int incorrect)],
              isQuizCompleted = True\<rparr>"
  have h1: "handleAnswer (initial ?qs) 0 = ?s1"
    by (simp add: handleAnswer_def initial_def showResult_def selectedAnswer_def lookup_def)
  have n1: "nextQuestion ?qs ?s1 = ?s2"
    by (simp add: nextQuestion_def isLastQuestion_def)
  have h2: "handleAnswer ?s2 (int incorrect) = ?s3"
    by (simp add: handleAnswer_def showResult_def selectedAnswer_def lookup_def)
  have n2: "nextQuestion ?qs ?s3 = ?s4"
    by (simp add: nextQuestion_def isLastQuestion_def)
  have c1: "click ?qs (initial ?qs) (ClickAnswer 0) = ?s1"
    using assms(1) h1 click_answer [of "initial ?qs" ?qs q1 0]
    by (simp add: initial_def lookup_def)
  have c2: "click ?qs ?s1 ClickNext = ?s2"
    using n1 click_next [of ?s1 ?qs q1]
    by (simp add: lookup_def showResult_def selectedAnswer_def)
  have c3: "click ?qs ?s2 (ClickAnswer incorrect) = ?s3"
    using assms(3,5) h2 click_answer [of ?s2 ?qs q2 incorrect]
    by (simp add: lookup_def)
  have c4: "click ?qs ?s3 ClickNext = ?s4"
    using n2 click_next [of ?s3 ?qs q2]
    by (simp add: lookup_def showResult_def selectedAnswer_def)
  have view: "Quiz ?qs ?s4 = Inr (Completed 1 2)"
    using assms(2,4,6) by (simp add: Quiz_def score_def lookup_def)
  have counted: "length answers \<le> length questions \<longrightarrow>
      score questions answers =
        Inr (length (filter (\<lambda>(a, q). a = Selected (correctAnswer q)) (zip answers questions)))"
    by (simp add: score_count)
  show ?thesis
    unfolding h1 n1 h2 n2 c1 c2 c3 c4
    by (intro conjI refl view handleAnswer_once counted)
qed

theorem quiz_scenario_witness:
  "length (options (scenario_quiz ! 0)) = 4 \<and> correctAnswer (scenario_quiz ! 0) = 0 \<and>
   length (options (scenario_quiz ! 1)) = 4 \<and> correctAnswer (scenario_quiz ! 1) = 2 \<and>
   click [scenario_quiz ! 0, scenario_quiz ! 1]
     (click [scenario_quiz ! 0, scenario_quiz ! 1]
        (click [scenario_quiz ! 0, scenario_quiz ! 1]
           (click [scenario_quiz ! 0, scenario_quiz ! 1]
              (initial [scenario_quiz ! 0, scenario_quiz ! 1]) (ClickAnswer 0)) ClickNext)
        (ClickAnswer 3)) ClickNext =
     \<lparr>currentQuestion = 1, userAnswers = [Selected 0, Selected (int 3)], isQuizCompleted = True\<rparr> \<and>
   Quiz [scenario_quiz ! 0, scenario_quiz ! 1]
     \<lparr>currentQuestion = 1, userAnswers = [Selected 0, Selected (int 3)], isQuizCompleted = True\<rparr> =
     Inr (Completed 1 2) \<and>
   handleAnswer (handleAnswer (initial scenario_quiz) 1) 0 = handleAnswer (initial scenario_quiz) 1 \<and>
   score scenario_quiz [Selected 0, Selected 3] = Inr 1"
proof -
  have o1: "length (options (scenario_quiz ! 0)) = 4" by (simp add: scenario_quiz_def)
  have a1: "correctAnswer (scenario_quiz ! 0) = 0" by (simp add: scenario_quiz_def)
  have o2: "length (options (scenario_quiz ! 1)) = 4" by (simp add: scenario_quiz_def)
  have a2: "correctAnswer (scenario_quiz ! 1) = 2" by (simp add: scenario_quiz_def)
  have w: "(3::nat) < 4" "(3::nat) \<noteq> 2" by simp_all
  have len: "length [Selected 0, Selected 3] \<le> length scenario_quiz"
    by (simp add: scenario_quiz_def)
  note scenario = quiz_scenario [OF o1 a1 o2 a2 w, where st = "initial scenario_quiz" and i = 1 and j = 0
      and answers = "[Selected 0, Selected 3]" and questions = scenario_quiz]
  have counted: "score scenario_quiz [Selected 0, Selected 3] =
      Inr (length (filter (\<lambda>(a, q). a = Selected (correctAnswer q))
        (zip [Selected 0, Selected 3] scenario_quiz)))"
    by (rule scenario [THEN conjunct2, THEN conjunct2, THEN conjunct2, THEN conjunct2, THEN mp, OF len])
  have one: "length (filter (\<lambda>(a, q). a = Selected (correctAnswer q))
        (zip [Selected 0, Selected 3] scenario_quiz)) = 1"
    by (simp add: scenario_quiz_def)
  show ?thesis
    by (intro conjI o1 a1 o2 a2 scenario [THEN conjunct2, THEN conjunct1]
        scenario [THEN conjunct2, THEN conjunct2, THEN conjunct1]
        scenario [THEN conjunct2, THEN conjunct2, THEN conjunct2, THEN conjunct1]
        counted [unfolded one])
qed


section \<open>The frontmatter parser\<close>

lemma split_lines_not_Nil [simp]: "split_lines s \<noteq> []"
  by (induction s) (auto split: list.splits)

lemma split_lines_line:
  "newline \<notin> set l \<Longrightarrow> split_lines (l @ newline # s) = l # split_lines s"
  by (induction l) (auto split: list.splits)

lemma join_lines_Cons: "ls \<noteq> [] \<Longrightarrow> join_lines (l # ls) = l @ newline # join_lines ls"
  by (cases ls) simp_all

lemma join_split_lines [simp]: "join_lines (split_lines s) = s"
proof (induction s)
  case Nil
  show ?case by simp
next
  case (Cons c s)
  obtain l ls where ls: "split_lines s = l # ls"
    by (cases "split_lines s") simp_all
  show ?case
  proof (cases "c = newline")
    case True
    then show ?thesis using Cons.IH by (simp add: join_lines_Cons)
  next
    case False
    then show ?thesis
      using Cons.IH ls by (cases ls) simp_all
  qed
qed

lemma split_join_lines:
  "\<forall>l\<in>set ls. newline \<notin> set l \<Longrightarrow> split_lines (join_lines (ls @ [s])) = ls @ split_lines s"
proof (induction ls)
  case Nil
  show ?case by simp
next
  case (Cons l ls)
  have "join_lines ((l # ls) @ [s]) = l @ newline # join_lines (ls @ [s])"
    by (simp add: join_lines_Cons)
  then show ?case using Cons by (simp add: split_lines_line)
qed

lemma takeWhile_until: "x \<notin> set xs \<Longrightarrow> takeWhile (\<lambda>c. c \<noteq> x) (xs @ x # ys) = xs"
  by (induction xs) auto

lemma dropWhile_until: "x \<notin> set xs \<Longrightarrow> dropWhile (\<lambda>c. c \<noteq> x) (xs @ x # ys) = x # ys"
  by (induction xs) auto

lemma dropWhile_absent: "x \<notin> set xs \<Longrightarrow> dropWhile (\<lambda>c. c \<noteq> x) xs = []"
  by (induction xs) auto

lemma quote_mark_cases:
  assumes "quote_mark q"
  obtains "q = []" | c where "q = [c]" "isQuote c" "c \<noteq> CHR '' ''" "c \<noteq> newline"
  using assms by (auto simp: quote_mark_def isQuote_def newline_def)

lemma parse_pair_show_pair:
  assumes "quote_mark q" and "scalar_pair q kv"
  shows "parse_pair (show_pair q kv) = Some kv"
proof -
  obtain k v where kv: "kv = (k, v)" by (cases kv)
  have key: "k \<noteq> []" "CHR '':'' \<notin> set k"
    using assms(2) by (simp_all add: scalar_pair_def kv)
  have tw: "takeWhile (\<lambda>c. c \<noteq> CHR '':'') (k @ CHR '':'' # CHR '' '' # q @ v @ q) = k"
    using key(2) by (rule takeWhile_until)
  have dw: "dropWhile (\<lambda>c. c \<noteq> CHR '':'') (k @ CHR '':'' # CHR '' '' # q @ v @ q) =
      CHR '':'' # CHR '' '' # q @ v @ q"
    using key(2) by (rule dropWhile_until)
  have val: "unquote (dropWhile (\<lambda>c. c = CHR '' '') (CHR '' '' # q @ v @ q)) = v"
    using assms(1)
  proof (cases rule: quote_mark_cases)
    case 1
    then have plain: "unquote v = v" "take 1 v \<noteq> '' ''"
      using assms(2) by (simp_all add: scalar_pair_def kv)
    then have "dropWhile (\<lambda>c. c = CHR '' '') v = v"
      by (cases v) auto
    with 1 plain show ?thesis by simp
  next
    case (2 c)
    then show ?thesis by (simp add: unquote_def)
  qed
  show ?thesis
    using key(1) val by (simp add: parse_pair_def show_pair_def kv tw dw Let_def)
qed

lemma parse_pairs_show_pairs:
  assumes "quote_mark q" and "\<forall>kv\<in>set kvs. scalar_pair q kv"
  shows "parse_pairs (map (show_pair q) kvs) = Some kvs"
  using assms(2) by (induction kvs) (simp_all add: parse_pair_show_pair [OF assms(1)])

lemma show_pair_line:
  assumes "quote_mark q" and "scalar_pair q kv"
  shows "show_pair q kv \<noteq> ''---'' \<and> newline \<notin> set (show_pair q kv)"
proof -
  have "CHR '':'' \<in> set (show_pair q kv)" by (simp add: show_pair_def)
  then have "show_pair q kv \<noteq> ''---''" by auto
  moreover have "newline \<notin> set q"
    using assms(1) by (auto simp: quote_mark_def newline_def)
  then have "newline \<notin> set (show_pair q kv)"
    using assms(2) by (auto simp: show_pair_def scalar_pair_def newline_def)
  ultimately show ?thesis by simp
qed

lemma matter_document:
  assumes "quote_mark q" and "\<forall>kv\<in>set kvs. scalar_pair q kv"
  shows "matter (document q kvs body) = Inr (kvs, body)"
proof -
  let ?block = "map (show_pair q) kvs"
  have lines: "\<forall>l\<in>set (''---'' # ?block @ [''---'']). newline \<notin> set l"
    using assms show_pair_line by (auto simp: newline_def)
  have "document q kvs body = join_lines ((''---'' # ?block @ [''---'']) @ [body])"
    by (simp add: document_def)
  then have split: "split_lines (document q kvs body) = ''---'' # ?block @ ''---'' # split_lines body"
    using split_join_lines [OF lines, of body] by simp
  have no_delimiter: "''---'' \<notin> set ?block"
  proof
    assume "''---'' \<in> set ?block"
    then obtain kv where "kv \<in> set kvs" and "show_pair q kv = ''---''" by auto
    then show False using show_pair_line [OF assms(1), of kv] assms(2) by simp
  qed
  have dw: "dropWhile (\<lambda>l. l \<noteq> ''---'') (?block @ ''---'' # split_lines body) = ''---'' # split_lines body"
    using no_delimiter by (rule dropWhile_until)
  have tw: "takeWhile (\<lambda>l. l \<noteq> ''---'') (?block @ ''---'' # split_lines body) = ?block"
    using no_delimiter by (rule takeWhile_until)
  show ?thesis
    by (simp add: matter_def split dw tw parse_pairs_show_pairs [OF assms])
qed

lemma matter_without_block:
  assumes "hd (split_lines rawText) \<noteq> ''---'' \<or> ''---'' \<notin> set (tl (split_lines rawText))"
  shows "matter rawText = Inr ([], rawText)"
proof -
  obtain first rest where lines: "split_lines rawText = first # rest"
    by (cases "split_lines rawText") simp_all
  show ?thesis
  proof (cases "first = ''---''")
    case False
    then show ?thesis by (simp add: matter_def lines)
  next
    case True
    with assms lines have "''---'' \<notin> set rest" by simp
    then have "dropWhile (\<lambda>l. l \<noteq> ''---'') rest = []" by (rule dropWhile_absent)
    then show ?thesis by (simp add: matter_def lines True del: dropWhile_eq_Nil_conv)
  qed
qed

lemma matter_total: "\<exists>data body. matter rawText = Inr (data, body)"
  by (simp add: matter_def split: list.splits option.splits)

text \<open>
  C8. For the parser of the specification: a text that begins with a delimited block of
  \<open>key: value\<close> lines parses to exactly those fields, in their order, and to the text
  after the closing delimiter as the body, unchanged; a text whose first line is not the
  delimiter, or that has no closing delimiter, parses to no field and the whole text as
  the body; and the parser fails on no text.
\<close>

theorem frontmatter_round_trip:
  "(quote_mark q \<and> (\<forall>kv\<in>set kvs. scalar_pair q kv) \<longrightarrow>
      matter (document q kvs body) = Inr (kvs, body)) \<and>
   (hd (split_lines rawText) \<noteq> ''---'' \<or> ''---'' \<notin> set (tl (split_lines rawText)) \<longrightarrow>
      matter rawText = Inr ([], rawText)) \<and>
   (\<exists>data body'. matter rawText = Inr (data, body'))"
  using matter_document [of q kvs body] matter_without_block [of rawText] matter_total [of rawText]
  by blast

theorem frontmatter_round_trip_witness:
  "quote_mark [CHR 0x22] \<and>
   scalar_pair [CHR 0x22] (''title'', ''T'') \<and> scalar_pair [CHR 0x22] (''date'', ''2024-01-01'') \<and>
   matter (document [CHR 0x22] [(''title'', ''T''), (''date'', ''2024-01-01'')] ''Hello'') =
     Inr ([(''title'', ''T''), (''date'', ''2024-01-01'')], ''Hello'') \<and>
   hd (split_lines ''Hello'') \<noteq> ''---'' \<and>
   matter ''Hello'' = Inr ([], ''Hello'')"
proof -
  have mark: "quote_mark [CHR 0x22]" by (simp add: quote_mark_def)
  have title: "scalar_pair [CHR 0x22] (''title'', ''T'')" by (simp add: scalar_pair_def newline_def)
  have date: "scalar_pair [CHR 0x22] (''date'', ''2024-01-01'')" by (simp add: scalar_pair_def newline_def)
  have pairs: "\<forall>kv\<in>set [(''title'', ''T''), (''date'', ''2024-01-01'')]. scalar_pair [CHR 0x22] kv"
    using title date by simp
  have plain: "hd (split_lines ''Hello'') \<noteq> ''---''" by (simp add: newline_def)
  note trip = frontmatter_round_trip [where q = "[CHR 0x22]"
      and kvs = "[(''title'', ''T''), (''date'', ''2024-01-01'')]" and body = "''Hello''"
      and rawText = "''Hello''"]
  have parsed: "matter (document [CHR 0x22] [(''title'', ''T''), (''date'', ''2024-01-01'')] ''Hello'') =
      Inr ([(''title'', ''T''), (''date'', ''2024-01-01'')], ''Hello'')"
    using trip mark pairs by blast
  have whole: "matter ''Hello'' = Inr ([], ''Hello'')"
    using trip plain by blast
  show ?thesis
    by (intro conjI mark title date parsed plain whole)
qed

end
